theory Spec2Isabelle
  imports Complex_Main "HOL-Library.Word" "HOL-Library.Multiset"
begin

unbundle bit_operations_syntax

section \<open>Vector search service: numeric identifiers\<close>

text \<open>
  The vector search service of the movie backend (\<open>vectorSearchService\<close>) and the movie
  service that calls it are embedded function by function. A JavaScript
  string handed to the hash is modelled by its UTF-8 bytes, which is what
  \<open>createHash('sha256').update(str)\<close> digests; \<open>string\<close> is a list of 8-bit characters.
\<close>

type_synonym byte = "8 word"
type_synonym u32 = "32 word"
type_synonym u64 = "64 word"

subsection \<open>SHA-256 (Node's \<open>createHash('sha256')\<close>, FIPS 180-4)\<close>

text \<open>
  The round constants are the first 32 bits of the fractional parts of the cube roots of the
  first 64 primes, the initial hash value those of the square roots of the first 8 primes.
  \<open>int_root k n\<close> is the integer \<open>k\<close>-th root of \<open>n\<close> below \<open>2 ^ 40\<close>, found bit by bit.
\<close>

definition is_prime :: "nat \<Rightarrow> bool" where
  "is_prime n \<longleftrightarrow> 2 \<le> n \<and> list_all (\<lambda>d. n mod d \<noteq> 0) [2..<n]"

definition first_primes :: "nat list" where
  "first_primes = filter is_prime [2..<312]"

definition int_root :: "nat \<Rightarrow> nat \<Rightarrow> nat" where
  "int_root k n =
     foldl (\<lambda>r b. if (r + 2 ^ b) ^ k \<le> n then r + 2 ^ b else r) 0 (rev [0..<40])"

definition K256 :: "u32 list" where
  "K256 = map (\<lambda>p. of_nat (int_root 3 (p * 2 ^ 96))) first_primes"

type_synonym sha_state = "u32 \<times> u32 \<times> u32 \<times> u32 \<times> u32 \<times> u32 \<times> u32 \<times> u32"

definition frac_sqrt :: "nat \<Rightarrow> u32" where
  "frac_sqrt p = of_nat (int_root 2 (p * 2 ^ 64))"

definition H256 :: sha_state where
  "H256 = (frac_sqrt 2, frac_sqrt 3, frac_sqrt 5, frac_sqrt 7,
           frac_sqrt 11, frac_sqrt 13, frac_sqrt 17, frac_sqrt 19)"

definition rotr :: "nat \<Rightarrow> u32 \<Rightarrow> u32" where
  "rotr n x = (drop_bit n x) OR (push_bit (32 - n) x)"

definition Ch :: "u32 \<Rightarrow> u32 \<Rightarrow> u32 \<Rightarrow> u32" where
  "Ch x y z = (x AND y) XOR (NOT x AND z)"

definition Maj :: "u32 \<Rightarrow> u32 \<Rightarrow> u32 \<Rightarrow> u32" where
  "Maj x y z = (x AND y) XOR (x AND z) XOR (y AND z)"

definition Sigma0 :: "u32 \<Rightarrow> u32" where
  "Sigma0 x = rotr 2 x XOR rotr 13 x XOR rotr 22 x"

definition Sigma1 :: "u32 \<Rightarrow> u32" where
  "Sigma1 x = rotr 6 x XOR rotr 11 x XOR rotr 25 x"

definition sigma0 :: "u32 \<Rightarrow> u32" where
  "sigma0 x = rotr 7 x XOR rotr 18 x XOR drop_bit 3 x"

definition sigma1 :: "u32 \<Rightarrow> u32" where
  "sigma1 x = rotr 17 x XOR rotr 19 x XOR drop_bit 10 x"

text \<open>Padding: the byte 0x80, zero bytes up to 56 modulo 64, the bit length on 8 bytes.\<close>

definition be_bytes :: "nat \<Rightarrow> nat \<Rightarrow> byte list" where
  "be_bytes n v = map (\<lambda>i. of_nat (v div 256 ^ (n - 1 - i))) [0..<n]"

definition sha_pad :: "byte list \<Rightarrow> byte list" where
  "sha_pad m =
     m @ [0x80] @ replicate ((119 - length m mod 64) mod 64) 0 @ be_bytes 8 (8 * length m)"

fun be_word32 :: "byte list \<Rightarrow> u32" where
  "be_word32 [] = 0"
| "be_word32 (b # bs) = push_bit (8 * length bs) (ucast b) OR be_word32 bs"

fun chunks :: "nat \<Rightarrow> 'a list \<Rightarrow> 'a list list" where
  "chunks n [] = []"
| "chunks n (x # xs) =
     (if n = 0 then [] else take n (x # xs) # chunks n (drop n (x # xs)))"

text \<open>The message schedule: 16 words of the block, extended to 64.\<close>

fun extend_schedule :: "nat \<Rightarrow> u32 list \<Rightarrow> u32 list" where
  "extend_schedule 0 ws = ws"
| "extend_schedule (Suc k) ws =
     (let t = length ws
      in extend_schedule k
           (ws @ [sigma1 (ws ! (t - 2)) + ws ! (t - 7) + sigma0 (ws ! (t - 15)) + ws ! (t - 16)]))"

definition schedule :: "byte list \<Rightarrow> u32 list" where
  "schedule block = extend_schedule 48 (map be_word32 (chunks 4 block))"

fun sha_round :: "sha_state \<Rightarrow> u32 \<times> u32 \<Rightarrow> sha_state" where
  "sha_round (a, b, c, d, e, f, g, h) (k, w) =
     (let t1 = h + Sigma1 e + Ch e f g + k + w;
          t2 = Sigma0 a + Maj a b c
      in (t1 + t2, a, b, c, d + t1, e, f, g))"

fun add_state :: "sha_state \<Rightarrow> sha_state \<Rightarrow> sha_state" where
  "add_state (a, b, c, d, e, f, g, h) (a', b', c', d', e', f', g', h') =
     (a + a', b + b', c + c', d + d', e + e', f + f', g + g', h + h')"

definition compress :: "sha_state \<Rightarrow> byte list \<Rightarrow> sha_state" where
  "compress st block = add_state st (foldl sha_round st (zip K256 (schedule block)))"

definition word32_bytes :: "u32 \<Rightarrow> byte list" where
  "word32_bytes w = [ucast (drop_bit 24 w), ucast (drop_bit 16 w), ucast (drop_bit 8 w), ucast w]"

fun state_bytes :: "sha_state \<Rightarrow> byte list" where
  "state_bytes (a, b, c, d, e, f, g, h) =
     word32_bytes a @ word32_bytes b @ word32_bytes c @ word32_bytes d @
     word32_bytes e @ word32_bytes f @ word32_bytes g @ word32_bytes h"

definition utf8_bytes :: "string \<Rightarrow> byte list" where
  "utf8_bytes s = map (\<lambda>c. of_nat (of_char c)) s"

definition sha256 :: "string \<Rightarrow> byte list" where
  "sha256 s = state_bytes (foldl compress H256 (chunks 64 (sha_pad (utf8_bytes s))))"

subsection \<open>\<open>stringToNumericId\<close>\<close>

datatype error =
    NoEmbeddings          \<comment> \<open>\<open>Error('No embeddings provided for upsert')\<close>\<close>
  | UnsupportedProvider   \<comment> \<open>\<open>Error('Unsupported vector database provider')\<close>\<close>
  | BackendError string   \<comment> \<open>a rejected backend or database call\<close>
  | TypeError             \<comment> \<open>calling or reading through a missing member\<close>
  | CastError             \<comment> \<open>a query on \<open>_id\<close> with a string that is no identifier\<close>
  | RangeError            \<comment> \<open>a buffer read past the end\<close>

definition MAX_SAFE_INTEGER :: int where
  "MAX_SAFE_INTEGER = 2 ^ 53 - 1"

text \<open>\<open>buf.readBigUInt64BE(offset)\<close>: eight bytes, most significant first; a
  \<open>RangeError\<close> when the buffer has fewer than \<open>offset + 8\<close> bytes.\<close>

fun be_word64 :: "byte list \<Rightarrow> u64" where
  "be_word64 [] = 0"
| "be_word64 (b # bs) = push_bit (8 * length bs) (ucast b) OR be_word64 bs"

definition readBigUInt64BE :: "byte list \<Rightarrow> nat \<Rightarrow> error + u64" where
  "readBigUInt64BE buf off =
     (if off + 8 \<le> length buf then Inr (be_word64 (take 8 (drop off buf))) else Inl RangeError)"

definition stringToNumericId :: "string \<Rightarrow> error + int" where
  "stringToNumericId str =
     (let hash = sha256 str
      in case readBigUInt64BE hash 0 of
           Inl e \<Rightarrow> Inl e
         | Inr bigInt \<Rightarrow> Inr (uint bigInt mod MAX_SAFE_INTEGER))"

text \<open>The derivation in the specification's words: the first 8 bytes of the digest read as
  an unsigned big-endian integer, reduced modulo the largest safe integer.\<close>

fun be_value :: "byte list \<Rightarrow> int" where
  "be_value [] = 0"
| "be_value (b # bs) = uint b * 256 ^ length bs + be_value bs"

definition spec_numeric_id :: "string \<Rightarrow> int" where
  "spec_numeric_id s = be_value (take 8 (sha256 s)) mod (2 ^ 53 - 1)"

section \<open>Vector search service: backends, upsert and search\<close>

text \<open>
  JavaScript values that reach \<open>String(...)\<close>, and numbers. Scores, distances and vector
  components are JavaScript numbers; they are modelled as exact reals, so \<open>1 - d\<close> is the
  exact difference (no rounding, no NaN or infinities). A \<open>JNum\<close> is an integer-valued
  number of magnitude below \<open>10 ^ 21\<close>, the range in which \<open>String\<close> prints plain decimal
  digits (it holds every safe integer, so every point identifier the service derives).
\<close>

datatype jsval = JStr string | JNum int | JNull

type_synonym vector = "real list"
type_synonym payload = "(string \<times> jsval) list"   \<comment> \<open>\<open>Record<string, unknown>\<close>\<close>

function show_nat :: "nat \<Rightarrow> string" where
  "show_nat n =
     (if n < 10 then [char_of (48 + n)] else show_nat (n div 10) @ [char_of (48 + n mod 10)])"
  by pat_completeness auto
termination
  by (relation "measure (\<lambda>n. n)") auto

declare show_nat.simps [simp del]

definition show_int :: "int \<Rightarrow> string" where
  "show_int i = (if i < 0 then CHR ''-'' # show_nat (nat (- i)) else show_nat (nat i))"

text \<open>\<open>String(v)\<close>; \<open>None\<close> is \<open>undefined\<close> (a missing property).\<close>

fun js_String :: "jsval option \<Rightarrow> string" where
  "js_String None = ''undefined''"
| "js_String (Some JNull) = ''null''"
| "js_String (Some (JStr s)) = s"
| "js_String (Some (JNum i)) = show_int i"

record VectorMatch =
  vm_id :: string
  vm_score :: real
  vm_payload :: payload

text \<open>What the backends answer.\<close>

record collection_info =
  points_count :: "nat option"          \<comment> \<open>\<open>number | null | undefined\<close>\<close>

record scored_point =
  sp_id :: jsval
  sp_score :: "real option"
  sp_payload :: "payload option"

datatype qdrant_response = NotAnArray | Points "scored_point list"

record qdrant_point =
  qp_id :: int
  qp_vector :: vector
  qp_payload :: payload

record pinecone_match =
  pm_id :: string
  pm_score :: "real option"
  pm_metadata :: "payload option"

record pinecone_response =
  matches :: "pinecone_match list option"

record pinecone_vector =
  pv_id :: string
  pv_values :: vector
  pv_metadata :: payload

record pinecone_index =
  pi_query :: "vector \<Rightarrow> int \<Rightarrow> error + pinecone_response"
  pi_upsert :: "pinecone_vector list \<Rightarrow> error + unit"

record chroma_results =
  cr_ids :: "string list list option"
  cr_distances :: "real option list list option"
  cr_metadatas :: "payload option list list option"

datatype chroma_body =
    AddBody "string list" "vector list" "payload list"
  | QueryBody "vector list" int

text \<open>
  The client returned by \<open>getVectorClient()\<close> is an opaque object. Each field is the value of
  the property read on it: \<open>None\<close> is \<open>undefined\<close>, \<open>Some f\<close> a member whose call behaves
  as \<open>f\<close> (a member that is not callable is an \<open>f\<close> that throws \<open>TypeError\<close>).
\<close>

record client =
  instanceofQdrantClient :: bool
  instanceofPinecone :: bool
  search :: "(string \<Rightarrow> vector \<Rightarrow> int \<Rightarrow> error + qdrant_response) option"
  getCollection :: "(string \<Rightarrow> error + collection_info) option"
  upsert :: "(string \<Rightarrow> qdrant_point list \<Rightarrow> error + unit) option"
  index :: "(string \<Rightarrow> error + pinecone_index) option"
  baseUrl :: "string option"
  collection :: "string option"

record env =
  VECTOR_COLLECTION :: string
  PINECONE_INDEX :: "string option"

text \<open>What the functions of the service read from outside: the configured client, the
  environment, and the HTTP client (the \<open>data\<close> of the response to a POST, an object).\<close>

record world =
  vectorClient :: client                                       \<comment> \<open>\<open>getVectorClient()\<close>\<close>
  environment :: env                                           \<comment> \<open>\<open>env\<close>\<close>
  axios_post :: "string \<Rightarrow> chroma_body \<Rightarrow> error + chroma_results"  \<comment> \<open>\<open>(await axios.post(url, body)).data\<close>\<close>

text \<open>\<open>Partial<CreateMovieDTO>\<close>: every field may be absent.\<close>

record MoviePatch =
  set_title :: "string option"
  set_genres :: "string list option"
  set_cast :: "string list option"
  set_director :: "string option"
  set_releaseYear :: "int option"
  set_plot :: "string option"
  set_trailerUrl :: "string option"
  set_posterUrl :: "string option"
  set_rating :: "real option"
  set_metadata :: "payload option"

text \<open>Effects, in the order they happen: backend and database calls, and log lines.\<close>

datatype event =
    LogInfo string
  | LogWarn string
  | LogError string "error option"
  | QdrantGetCollection string
  | QdrantSearch string vector int
  | QdrantUpsert string "qdrant_point list"
  | PineconeIndex string
  | PineconeQuery string vector int
  | PineconeUpsert string "pinecone_vector list"
  | AxiosPost string chroma_body
  | DbFindById string
  | DbFind "string list"
  | DbFindSorted string int int int
  | DbCountDocuments
  | DbFindByIdAndUpdate string
  | DbFindByIdAndDelete string
  | RegenerateMovieEmbeddings string MoviePatch

type_synonym 'a io = "(error + 'a) \<times> event list"

subsection \<open>Backend discriminator\<close>

definition isQdrant :: "client \<Rightarrow> bool" where
  "isQdrant c \<longleftrightarrow> instanceofQdrantClient c \<or> search c \<noteq> None"

definition isPinecone :: "client \<Rightarrow> bool" where
  "isPinecone c \<longleftrightarrow> instanceofPinecone c \<or> index c \<noteq> None"

definition isChroma :: "client \<Rightarrow> bool" where
  "isChroma c \<longleftrightarrow> baseUrl c \<noteq> None"

subsection \<open>\<open>upsertMovieEmbeddings\<close>\<close>

type_synonym EmbeddingRecord = "(string \<times> vector) list"  \<comment> \<open>in \<open>Object.entries\<close> order\<close>
type_synonym key_record = "(string \<times> string) list"       \<comment> \<open>\<open>Record<string, string>\<close>\<close>

text \<open>\<open>obj[k] = v\<close> on an object kept as its entries in insertion order.\<close>

fun obj_set :: "'k \<Rightarrow> 'v \<Rightarrow> ('k \<times> 'v) list \<Rightarrow> ('k \<times> 'v) list" where
  "obj_set k v [] = [(k, v)]"
| "obj_set k v ((k', v') # kvs) =
     (if k = k' then (k, v) # kvs else (k', v') # obj_set k v kvs)"

text \<open>
  \<open>acc[k] = v\<close> on an accumulator that starts as the plain object \<open>{}\<close> and takes string
  values: the key \<open>__proto__\<close> names the prototype, and assigning a string to it changes
  nothing.
\<close>

definition record_set :: "string \<Rightarrow> string \<Rightarrow> key_record \<Rightarrow> key_record" where
  "record_set k v acc = (if k = ''__proto__'' then acc else obj_set k v acc)"

definition composite_key :: "string \<Rightarrow> string \<Rightarrow> string" where
  "composite_key movieId source = movieId @ '':'' @ source"

definition js_or_string :: "string option \<Rightarrow> string \<Rightarrow> string" where
  \<comment> \<open>\<open>a || b\<close> on strings: \<open>undefined\<close> and the empty string are falsy\<close>
  "js_or_string a b = (case a of None \<Rightarrow> b | Some s \<Rightarrow> if s = [] then b else s)"

definition template_opt :: "string option \<Rightarrow> string" where
  \<comment> \<open>a possibly undefined string inside a template literal\<close>
  "template_opt a = (case a of None \<Rightarrow> ''undefined'' | Some s \<Rightarrow> s)"

fun qdrant_points :: "string \<Rightarrow> EmbeddingRecord \<Rightarrow> error + qdrant_point list" where
  "qdrant_points movieId [] = Inr []"
| "qdrant_points movieId ((source, vec) # rest) =
     (let stringId = composite_key movieId source
      in case stringToNumericId stringId of
           Inl e \<Rightarrow> Inl e
         | Inr numericId \<Rightarrow>
             (case qdrant_points movieId rest of
                Inl e \<Rightarrow> Inl e
              | Inr ps \<Rightarrow>
                  Inr (\<lparr>qp_id = numericId, qp_vector = vec,
                        qp_payload = [(''movieId'', JStr movieId), (''source'', JStr source),
                                      (''originalId'', JStr stringId)]\<rparr> # ps)))"

definition qdrant_point_source :: "qdrant_point \<Rightarrow> string" where
  "qdrant_point_source p = js_String (map_of (qp_payload p) ''source'')"

definition upsertQdrant :: "world \<Rightarrow> string \<Rightarrow> EmbeddingRecord \<Rightarrow> key_record io" where
  "upsertQdrant w movieId embeddings =
     (let c = vectorClient w; coll = VECTOR_COLLECTION (environment w)
      in case qdrant_points movieId embeddings of
           Inl e \<Rightarrow> (Inl e, [])
         | Inr points \<Rightarrow>
             (case upsert c of
                None \<Rightarrow> (Inl TypeError, [])
              | Some f \<Rightarrow>
                  (case f coll points of
                     Inl e \<Rightarrow> (Inl e, [QdrantUpsert coll points])
                   | Inr _ \<Rightarrow>
                       (Inr (foldl (\<lambda>acc p. record_set (qdrant_point_source p) (show_int (qp_id p)) acc)
                               [] points),
                        [QdrantUpsert coll points,
                         LogInfo (''Upserted '' @ show_nat (length points) @ '' embeddings for movie ''
                                  @ movieId @ '' to Qdrant'')]))))"

definition pinecone_vectors :: "string \<Rightarrow> EmbeddingRecord \<Rightarrow> pinecone_vector list" where
  "pinecone_vectors movieId embeddings =
     map (\<lambda>(source, vec).
            \<lparr>pv_id = composite_key movieId source, pv_values = vec,
             pv_metadata = [(''movieId'', JStr movieId), (''source'', JStr source)]\<rparr>) embeddings"

definition pinecone_vector_source :: "pinecone_vector \<Rightarrow> string" where
  "pinecone_vector_source v = js_String (map_of (pv_metadata v) ''source'')"

definition vector_keys :: "pinecone_vector list \<Rightarrow> key_record" where
  "vector_keys vs = foldl (\<lambda>acc v. record_set (pinecone_vector_source v) (pv_id v) acc) [] vs"

definition pinecone_index_name :: "env \<Rightarrow> string" where
  "pinecone_index_name e = js_or_string (PINECONE_INDEX e) (VECTOR_COLLECTION e)"

definition upsertPinecone :: "world \<Rightarrow> string \<Rightarrow> EmbeddingRecord \<Rightarrow> key_record io" where
  "upsertPinecone w movieId embeddings =
     (let c = vectorClient w; name = pinecone_index_name (environment w)
      in case index c of
           None \<Rightarrow> (Inl TypeError, [])
         | Some mk \<Rightarrow>
             (case mk name of
                Inl e \<Rightarrow> (Inl e, [PineconeIndex name])
              | Inr idx \<Rightarrow>
                  (let vectors = pinecone_vectors movieId embeddings
                   in case pi_upsert idx vectors of
                        Inl e \<Rightarrow> (Inl e, [PineconeIndex name, PineconeUpsert name vectors])
                      | Inr _ \<Rightarrow>
                          (Inr (vector_keys vectors),
                           [PineconeIndex name, PineconeUpsert name vectors,
                            LogInfo (''Upserted '' @ show_nat (length vectors)
                                     @ '' embeddings for movie '' @ movieId @ '' to Pinecone'')]))))"

definition chroma_url :: "client \<Rightarrow> string \<Rightarrow> string" where
  "chroma_url c suffix =
     template_opt (baseUrl c) @ ''/collections/'' @ template_opt (collection c) @ suffix"

definition upsertChroma :: "world \<Rightarrow> string \<Rightarrow> EmbeddingRecord \<Rightarrow> key_record io" where
  "upsertChroma w movieId embeddings =
     (let c = vectorClient w;
          vectors = pinecone_vectors movieId embeddings;
          url = chroma_url c ''/add'';
          body = AddBody (map pv_id vectors) (map pv_values vectors) (map pv_metadata vectors)
      in case axios_post w url body of
           Inl e \<Rightarrow> (Inl e, [AxiosPost url body])
         | Inr _ \<Rightarrow>
             (Inr (vector_keys vectors),
              [AxiosPost url body,
               LogInfo (''Upserted '' @ show_nat (length vectors)
                        @ '' embeddings for movie '' @ movieId @ '' to Chroma'')]))"

definition upsertMovieEmbeddings :: "world \<Rightarrow> string \<Rightarrow> EmbeddingRecord \<Rightarrow> key_record io" where
  "upsertMovieEmbeddings w movieId embeddings =
     (let c = vectorClient w
      in if length embeddings = 0 then (Inl NoEmbeddings, [])
         else if isQdrant c then upsertQdrant w movieId embeddings
         else if isPinecone c then upsertPinecone w movieId embeddings
         else if isChroma c then upsertChroma w movieId embeddings
         else (Inl UnsupportedProvider, []))"

subsection \<open>\<open>semanticSearch\<close>\<close>

text \<open>The default \<open>limit = 10\<close> is the caller's: the limit is always an argument here.\<close>

definition or_zero :: "real option \<Rightarrow> real" where
  \<comment> \<open>\<open>x ?? 0\<close>, and \<open>x || 0\<close> on a number (\<open>undefined\<close>, \<open>null\<close> and \<open>0\<close> all give \<open>0\<close>)\<close>
  "or_zero x = (case x of None \<Rightarrow> 0 | Some r \<Rightarrow> r)"

definition or_empty :: "payload option \<Rightarrow> payload" where
  \<comment> \<open>\<open>x ?? {}\<close>, \<open>x || {}\<close>\<close>
  "or_empty x = (case x of None \<Rightarrow> [] | Some p \<Rightarrow> p)"

definition qdrant_match :: "scored_point \<Rightarrow> VectorMatch" where
  "qdrant_match point =
     \<lparr>vm_id = js_String (Some (sp_id point)), vm_score = or_zero (sp_score point),
      vm_payload = or_empty (sp_payload point)\<rparr>"

text \<open>The outer \<open>catch\<close> of the Qdrant branch.\<close>

definition qdrant_search_failed :: "error \<Rightarrow> event list" where
  "qdrant_search_failed e =
     [LogError ''Qdrant search error'' (Some e),
      LogWarn ''Returning empty results due to search error'']"

definition searchQdrant :: "world \<Rightarrow> vector \<Rightarrow> int \<Rightarrow> VectorMatch list io" where
  "searchQdrant w embedding limit =
     (let c = vectorClient w; coll = VECTOR_COLLECTION (environment w);
          missing = LogWarn (''Vector collection '' @ [CHR 0x27] @ coll @ [CHR 0x27]
                             @ '' does not exist. Returning empty results.'');
          empty = LogInfo (''Vector collection '' @ [CHR 0x27] @ coll @ [CHR 0x27]
                           @ '' is empty. Returning empty results.'')
      in case getCollection c of
           None \<Rightarrow> (Inr [], [missing])
         | Some gc \<Rightarrow>
             (case gc coll of
                Inl e \<Rightarrow> (Inr [], [QdrantGetCollection coll, missing])
              | Inr collectionInfo \<Rightarrow>
                  if points_count collectionInfo = Some 0
                  then (Inr [], [QdrantGetCollection coll, empty])
                  else
                    (case search c of
                       None \<Rightarrow> (Inr [], QdrantGetCollection coll # qdrant_search_failed TypeError)
                     | Some srch \<Rightarrow>
                         (case srch coll embedding limit of
                            Inl e \<Rightarrow>
                              (Inr [], [QdrantGetCollection coll, QdrantSearch coll embedding limit]
                                       @ qdrant_search_failed e)
                          | Inr NotAnArray \<Rightarrow>
                              (Inr [], [QdrantGetCollection coll, QdrantSearch coll embedding limit,
                                        LogWarn ''Qdrant search returned invalid response''])
                          | Inr (Points response) \<Rightarrow>
                              (Inr (map qdrant_match response),
                               [QdrantGetCollection coll, QdrantSearch coll embedding limit])))))"

definition pinecone_result :: "pinecone_match \<Rightarrow> VectorMatch" where
  "pinecone_result m =
     \<lparr>vm_id = pm_id m, vm_score = or_zero (pm_score m), vm_payload = or_empty (pm_metadata m)\<rparr>"

definition searchPinecone :: "world \<Rightarrow> vector \<Rightarrow> int \<Rightarrow> VectorMatch list io" where
  "searchPinecone w embedding limit =
     (let c = vectorClient w; name = pinecone_index_name (environment w)
      in case index c of
           None \<Rightarrow> (Inl TypeError, [])
         | Some mk \<Rightarrow>
             (case mk name of
                Inl e \<Rightarrow> (Inl e, [PineconeIndex name])
              | Inr idx \<Rightarrow>
                  (case pi_query idx embedding limit of
                     Inl e \<Rightarrow> (Inl e, [PineconeIndex name, PineconeQuery name embedding limit])
                   | Inr queryResponse \<Rightarrow>
                       (Inr (map pinecone_result
                               (case matches queryResponse of None \<Rightarrow> [] | Some ms \<Rightarrow> ms)),
                        [PineconeIndex name, PineconeQuery name embedding limit]))))"

text \<open>\<open>xs[idx]\<close> in JavaScript: \<open>undefined\<close> past the end.\<close>

definition js_nth :: "'a option list \<Rightarrow> nat \<Rightarrow> 'a option" where
  "js_nth xs i = (if i < length xs then xs ! i else None)"

definition first_or_empty :: "'a list list option \<Rightarrow> 'a list" where
  \<comment> \<open>\<open>results.field?.[0] || []\<close>\<close>
  "first_or_empty x = (case x of None \<Rightarrow> [] | Some [] \<Rightarrow> [] | Some (ys # _) \<Rightarrow> ys)"

definition chroma_match ::
  "real option list \<Rightarrow> payload option list \<Rightarrow> string \<times> nat \<Rightarrow> VectorMatch" where
  "chroma_match distances metadatas = (\<lambda>(i, idx).
     \<lparr>vm_id = i, vm_score = 1 - or_zero (js_nth distances idx),
      vm_payload = or_empty (js_nth metadatas idx)\<rparr>)"

definition chroma_matches :: "chroma_results \<Rightarrow> VectorMatch list" where
  "chroma_matches results =
     (case cr_ids results of
        None \<Rightarrow> []
      | Some [] \<Rightarrow> []
      | Some (ids # _) \<Rightarrow>
          (let distances = first_or_empty (cr_distances results);
               metadatas = first_or_empty (cr_metadatas results)
           in map (chroma_match distances metadatas) (zip ids [0..<length ids])))"

definition searchChroma :: "world \<Rightarrow> vector \<Rightarrow> int \<Rightarrow> VectorMatch list io" where
  "searchChroma w embedding limit =
     (let c = vectorClient w;
          url = chroma_url c ''/query'';
          body = QueryBody [embedding] limit
      in case axios_post w url body of
           Inl e \<Rightarrow> (Inl e, [AxiosPost url body])
         | Inr results \<Rightarrow> (Inr (chroma_matches results), [AxiosPost url body]))"

definition semanticSearch :: "world \<Rightarrow> vector \<Rightarrow> int \<Rightarrow> VectorMatch list io" where
  "semanticSearch w embedding limit =
     (let c = vectorClient w
      in if isQdrant c then searchQdrant w embedding limit
         else if isPinecone c then searchPinecone w embedding limit
         else if isChroma c then searchChroma w embedding limit
         else (Inl UnsupportedProvider, []))"

section \<open>Movie service\<close>

text \<open>
  \<open>Types.ObjectId\<close> belongs to the database driver. Its three operations used here are
  parameters: the format check \<open>Types.ObjectId.isValid\<close>, the identifier a valid string
  denotes, and the string form of an identifier (\<open>movie.id\<close>, \<open>String(movie._id)\<close>). A query
  on \<open>_id\<close> casts the strings it is given and fails with a cast error on a string that is not
  valid, before the database is asked.
\<close>

record 'oid objectid_ops =
  isValid :: "string \<Rightarrow> bool"
  castObjectId :: "string \<Rightarrow> 'oid"
  toHexString :: "'oid \<Rightarrow> string"

record 'oid Movie =
  oid :: 'oid                          \<comment> \<open>\<open>_id\<close>\<close>
  title :: string
  genres :: "string list"
  cast_members :: "string list"        \<comment> \<open>\<open>cast\<close>\<close>
  director :: "string option"
  releaseYear :: "int option"
  plot :: "string option"
  trailerUrl :: "string option"
  posterUrl :: "string option"
  rating :: "real option"
  metadata :: "payload option"
  embeddingKeys :: key_record

text \<open>
  The document store: the collection, the error every call is rejected with while the
  database is unreachable, and the order the database gives to the collection for a sort
  field and direction (the schema that names the sortable fields is the database's).
\<close>

record 'oid database =
  documents :: "'oid Movie list"
  db_error :: "error option"
  sorted_by :: "string \<Rightarrow> int \<Rightarrow> 'oid Movie list \<Rightarrow> 'oid Movie list"

definition movie_id :: "'oid objectid_ops \<Rightarrow> 'oid Movie \<Rightarrow> string" where
  \<comment> \<open>\<open>movie.id\<close>, the string form of \<open>movie._id\<close>\<close>
  "movie_id ops movie = toHexString ops (oid movie)"

definition cast_query :: "'oid objectid_ops \<Rightarrow> string \<Rightarrow> error + 'oid" where
  "cast_query ops s = (if isValid ops s then Inr (castObjectId ops s) else Inl CastError)"

fun cast_all :: "'oid objectid_ops \<Rightarrow> string list \<Rightarrow> error + 'oid list" where
  "cast_all ops [] = Inr []"
| "cast_all ops (s # ss) =
     (case cast_query ops s of
        Inl e \<Rightarrow> Inl e
      | Inr x \<Rightarrow> (case cast_all ops ss of Inl e \<Rightarrow> Inl e | Inr xs \<Rightarrow> Inr (x # xs)))"

text \<open>\<open>MovieModel.findById(id)\<close> and \<open>MovieModel.find({ _id: { $in: ids } })\<close>.\<close>

definition db_findById ::
  "'oid objectid_ops \<Rightarrow> 'oid database \<Rightarrow> string \<Rightarrow> error + 'oid Movie option" where
  "db_findById ops db i =
     (case cast_query ops i of
        Inl e \<Rightarrow> Inl e
      | Inr x \<Rightarrow>
          (case db_error db of
             Some e \<Rightarrow> Inl e
           | None \<Rightarrow> Inr (find (\<lambda>m. oid m = x) (documents db))))"

definition db_find_in ::
  "'oid objectid_ops \<Rightarrow> 'oid database \<Rightarrow> string list \<Rightarrow> error + 'oid Movie list" where
  "db_find_in ops db ids =
     (case cast_all ops ids of
        Inl e \<Rightarrow> Inl e
      | Inr xs \<Rightarrow>
          (case db_error db of
             Some e \<Rightarrow> Inl e
           | None \<Rightarrow> Inr (filter (\<lambda>m. oid m \<in> set xs) (documents db))))"

subsection \<open>\<open>getMovieById\<close>\<close>

definition getMovieById ::
  "'oid objectid_ops \<Rightarrow> 'oid database \<Rightarrow> string \<Rightarrow> 'oid Movie option io" where
  "getMovieById ops db i =
     (if \<not> isValid ops i then (Inr None, [])
      else (db_findById ops db i, [DbFindById i]))"

subsection \<open>\<open>getMoviesByIds\<close>\<close>

definition getMoviesByIds ::
  "'oid objectid_ops \<Rightarrow> 'oid database \<Rightarrow> string list \<Rightarrow> 'oid Movie list io" where
  "getMoviesByIds ops db ids =
     (let objectIds = filter (isValid ops) ids
      in if length objectIds = 0 then (Inr [], [])
         else case db_find_in ops db objectIds of
                Inl e \<Rightarrow> (Inl e, [DbFind objectIds])
              | Inr movies \<Rightarrow>
                  (let movieMap = foldl (\<lambda>acc movie. obj_set (movie_id ops movie) movie acc) [] movies
                   in (Inr (List.map_filter (map_of movieMap) ids), [DbFind objectIds])))"

subsection \<open>\<open>searchMoviesByEmbedding\<close>\<close>

definition match_movieId :: "VectorMatch \<Rightarrow> string" where
  \<comment> \<open>\<open>String(match.payload.movieId)\<close>\<close>
  "match_movieId m = js_String (map_of (vm_payload m) ''movieId'')"

definition index_movie ::
  "'oid objectid_ops \<Rightarrow> (string \<times> 'oid Movie) list \<Rightarrow> 'oid Movie \<Rightarrow> (string \<times> 'oid Movie) list" where
  "index_movie ops movieMap movie =
     (let movieId = js_or_string (Some (movie_id ops movie)) (toHexString ops (oid movie))
      in if movieId \<noteq> []
         then obj_set (toHexString ops (oid movie)) movie (obj_set movieId movie movieMap)
         else movieMap)"

text \<open>One step of \<open>matches.forEach\<close>: the score map and the warnings logged so far.\<close>

definition merge_match ::
  "(string \<times> 'm) list \<Rightarrow> (string \<times> 'm \<times> real) list \<times> event list \<Rightarrow> VectorMatch
     \<Rightarrow> (string \<times> 'm \<times> real) list \<times> event list" where
  "merge_match movieMap st m =
     (let movieId = match_movieId m
      in case map_of movieMap movieId of
           None \<Rightarrow> (fst st, snd st @ [LogWarn (''Movie not found for ID: '' @ movieId)])
         | Some movie \<Rightarrow>
             (case map_of (fst st) movieId of
                None \<Rightarrow> (obj_set movieId (movie, vm_score m) (fst st), snd st)
              | Some existing \<Rightarrow>
                  if vm_score m > snd existing
                  then (obj_set movieId (movie, vm_score m) (fst st), snd st)
                  else st))"

text \<open>\<open>xs.slice(0, n)\<close>: a negative \<open>n\<close> counts from the end.\<close>

definition js_slice0 :: "'a list \<Rightarrow> int \<Rightarrow> 'a list" where
  "js_slice0 xs n = (if n < 0 then take (nat (int (length xs) + n)) xs else take (nat n) xs)"

text \<open>\<open>sort((a, b) => b.score - a.score)\<close>: descending by score, stable.\<close>

definition sort_by_score_desc :: "('m \<times> real) list \<Rightarrow> ('m \<times> real) list" where
  "sort_by_score_desc xs = sort_key (\<lambda>e. - snd e) xs"

definition searchMoviesByEmbedding ::
  "world \<Rightarrow> 'oid objectid_ops \<Rightarrow> 'oid database \<Rightarrow> vector \<Rightarrow> int
     \<Rightarrow> ('oid Movie \<times> real) list io" where
  "searchMoviesByEmbedding w ops db embedding limit =
     (case semanticSearch w embedding (limit * 2) of
        (Inl e, ev) \<Rightarrow> (Inl e, ev)
      | (Inr ms, ev) \<Rightarrow>
          if length ms = 0 then (Inr [], ev)
          else
            (let ids = filter (\<lambda>s. s \<noteq> []) (map match_movieId ms)
             in if length ids = 0 then (Inr [], ev)
                else
                  (case getMoviesByIds ops db ids of
                     (Inl e, ev') \<Rightarrow> (Inl e, ev @ ev')
                   | (Inr movies, ev') \<Rightarrow>
                       (let movieMap = foldl (index_movie ops) [] movies;
                            merged = foldl (merge_match movieMap) ([], []) ms
                        in (Inr (js_slice0 (sort_by_score_desc (map snd (fst merged))) limit),
                            ev @ ev' @ snd merged)))))"

subsection \<open>\<open>getAllMovies\<close>\<close>

text \<open>
  Page and limit are JavaScript numbers holding integers; they are modelled as \<open>int\<close>, and
  the quotient \<open>total / limit\<close> as the exact one. The defaults (\<open>page = 1\<close>, \<open>limit = 20\<close>,
  \<open>sortBy = 'createdAt'\<close>, \<open>sortOrder = 'desc'\<close>) are the caller's. The database rejects a
  negative skip.
\<close>

datatype sort_order = asc | desc

text \<open>A JavaScript number that may be infinite or NaN (a division by zero).\<close>

datatype js_number = Finite int | PosInfinity | NaN

definition ceil_div :: "int \<Rightarrow> int \<Rightarrow> js_number" where
  \<comment> \<open>\<open>Math.ceil(total / limit)\<close> for a count \<open>total \<ge> 0\<close>\<close>
  "ceil_div n limit =
     (if limit = 0 then (if n = 0 then NaN else PosInfinity)
      else Finite \<lceil>real_of_int n / real_of_int limit\<rceil>)"

record 'oid movie_page =
  movies :: "'oid Movie list"
  total_count :: int                   \<comment> \<open>\<open>total\<close>\<close>
  page :: int
  totalPages :: js_number

text \<open>The database's \<open>limit\<close>: 0 is no limit, a negative limit is its absolute value.\<close>

definition db_limit :: "int \<Rightarrow> 'a list \<Rightarrow> 'a list" where
  "db_limit n xs = (if n = 0 then xs else take (nat \<bar>n\<bar>) xs)"

definition getAllMovies ::
  "'oid database \<Rightarrow> int \<Rightarrow> int \<Rightarrow> string \<Rightarrow> sort_order \<Rightarrow> 'oid movie_page io" where
  "getAllMovies db pg limit sortBy sortOrder =
     (let skip = (pg - 1) * limit;
          dir = (if sortOrder = asc then 1 else - 1);
          ev = [DbFindSorted sortBy dir skip limit, DbCountDocuments]
      in case db_error db of
           Some e \<Rightarrow> (Inl e, ev)
         | None \<Rightarrow>
             if skip < 0 then (Inl (BackendError ''Skip value must be non-negative''), ev)
             else
               (let found = db_limit limit (drop (nat skip) (sorted_by db sortBy dir (documents db)));
                    n = int (length (documents db))
                in (Inr \<lparr>movies = found, total_count = n, page = pg,
                         totalPages = ceil_div n limit\<rparr>, ev)))"

subsection \<open>\<open>updateMovie\<close> and \<open>deleteMovie\<close>\<close>

definition apply_set :: "MoviePatch \<Rightarrow> 'oid Movie \<Rightarrow> 'oid Movie" where
  \<comment> \<open>\<open>{ $set: payload }\<close>\<close>
  "apply_set p m =
     m\<lparr>title := (case set_title p of None \<Rightarrow> title m | Some x \<Rightarrow> x),
       genres := (case set_genres p of None \<Rightarrow> genres m | Some x \<Rightarrow> x),
       cast_members := (case set_cast p of None \<Rightarrow> cast_members m | Some x \<Rightarrow> x),
       director := (case set_director p of None \<Rightarrow> director m | Some x \<Rightarrow> Some x),
       releaseYear := (case set_releaseYear p of None \<Rightarrow> releaseYear m | Some x \<Rightarrow> Some x),
       plot := (case set_plot p of None \<Rightarrow> plot m | Some x \<Rightarrow> Some x),
       trailerUrl := (case set_trailerUrl p of None \<Rightarrow> trailerUrl m | Some x \<Rightarrow> Some x),
       posterUrl := (case set_posterUrl p of None \<Rightarrow> posterUrl m | Some x \<Rightarrow> Some x),
       rating := (case set_rating p of None \<Rightarrow> rating m | Some x \<Rightarrow> Some x),
       metadata := (case set_metadata p of None \<Rightarrow> metadata m | Some x \<Rightarrow> Some x)\<rparr>"

definition override :: "'a option \<Rightarrow> 'a option \<Rightarrow> 'a option" where
  \<comment> \<open>a field of \<open>{ ...base, ...payload }\<close>\<close>
  "override base p = (case p of None \<Rightarrow> base | Some x \<Rightarrow> Some x)"

definition embeddingPayload :: "'oid Movie \<Rightarrow> MoviePatch \<Rightarrow> MoviePatch" where
  "embeddingPayload updatedMovie p =
     p\<lparr>set_title := override (Some (title updatedMovie)) (set_title p),
       set_plot := override (plot updatedMovie) (set_plot p),
       set_genres := override (Some (genres updatedMovie)) (set_genres p),
       set_metadata := override (metadata updatedMovie) (set_metadata p)\<rparr>"

type_synonym ('a, 'oid) db_io = "(error + 'a) \<times> event list \<times> 'oid database"

definition updateMovie ::
  "'oid objectid_ops \<Rightarrow> 'oid database \<Rightarrow> string \<Rightarrow> MoviePatch \<Rightarrow> ('oid Movie option, 'oid) db_io" where
  "updateMovie ops db i p =
     (if \<not> isValid ops i then (Inr None, [], db)
      else case db_findById ops db i of
             Inl e \<Rightarrow> (Inl e, [DbFindByIdAndUpdate i], db)
           | Inr None \<Rightarrow> (Inr None, [DbFindByIdAndUpdate i], db)
           | Inr (Some m) \<Rightarrow>
               (let updatedMovie = apply_set p m;
                    db' = db\<lparr>documents :=
                               map (\<lambda>d. if oid d = oid m then updatedMovie else d) (documents db)\<rparr>
                in (Inr (Some updatedMovie),
                    [DbFindByIdAndUpdate i,
                     RegenerateMovieEmbeddings i (embeddingPayload updatedMovie p)],
                    db')))"

definition deleteMovie ::
  "'oid objectid_ops \<Rightarrow> 'oid database \<Rightarrow> string \<Rightarrow> (bool, 'oid) db_io" where
  "deleteMovie ops db i =
     (if \<not> isValid ops i then (Inr False, [], db)
      else case db_findById ops db i of
             Inl e \<Rightarrow> (Inl e, [DbFindByIdAndDelete i], db)
           | Inr None \<Rightarrow> (Inr False, [DbFindByIdAndDelete i], db)
           | Inr (Some m) \<Rightarrow>
               (Inr True, [DbFindByIdAndDelete i],
                db\<lparr>documents := filter (\<lambda>d. oid d \<noteq> oid m) (documents db)\<rparr>))"

subsection \<open>Well-formed stores\<close>

text \<open>
  The identifiers the database has assigned: they are distinct, each has a non-empty string
  form that passes the format check, and a query cast of that string gives the identifier
  back.
\<close>

definition wf_store :: "'oid objectid_ops \<Rightarrow> 'oid database \<Rightarrow> bool" where
  "wf_store ops db \<longleftrightarrow>
     distinct (map oid (documents db)) \<and>
     list_all (\<lambda>m. movie_id ops m \<noteq> [] \<and> isValid ops (movie_id ops m)
                    \<and> castObjectId ops (movie_id ops m) = oid m) (documents db)"

text \<open>The stored document whose identifier has the string form \<open>i\<close>.\<close>

definition by_id :: "'oid objectid_ops \<Rightarrow> 'oid database \<Rightarrow> string \<Rightarrow> 'oid Movie option" where
  "by_id ops db i = find (\<lambda>m. movie_id ops m = i) (documents db)"

text \<open>
  The invariant of the loop over the raw matches in \<open>searchMoviesByEmbedding\<close>: after the
  matches \<open>ps\<close>, the score map \<open>A\<close> has one entry per resolved movie identifier, holding the
  movie the lookup table \<open>mm\<close> gives and the best score seen for it.
\<close>

definition score_map_inv ::
  "(string \<times> 'm) list \<Rightarrow> VectorMatch list \<Rightarrow> (string \<times> 'm \<times> real) list \<Rightarrow> bool" where
  "score_map_inv mm ps A \<longleftrightarrow>
     distinct (map fst A) \<and>
     (\<forall>k m s. map_of A k = Some (m, s) \<longrightarrow>
        map_of mm k = Some m
        \<and> (\<exists>x \<in> set ps. match_movieId x = k \<and> vm_score x = s)
        \<and> (\<forall>x \<in> set ps. match_movieId x = k \<longrightarrow> vm_score x \<le> s)) \<and>
     (\<forall>x \<in> set ps. map_of mm (match_movieId x) \<noteq> None \<longrightarrow> map_of A (match_movieId x) \<noteq> None)"

section \<open>Concrete inputs\<close>

definition example_env :: env where
  "example_env = \<lparr>VECTOR_COLLECTION = ''movies'', PINECONE_INDEX = None\<rparr>"

definition plain_object :: client where
  \<comment> \<open>an object with none of the probed members\<close>
  "plain_object =
     \<lparr>instanceofQdrantClient = False, instanceofPinecone = False, search = None,
      getCollection = None, upsert = None, index = None, baseUrl = None, collection = None\<rparr>"

definition example_points :: "scored_point list" where
  "example_points =
     [\<lparr>sp_id = JNum 7, sp_score = Some 0.9, sp_payload = Some [(''movieId'', JStr ''m1'')]\<rparr>]"

definition qdrant_client :: "(error + collection_info) \<Rightarrow> (error + qdrant_response) \<Rightarrow> client" where
  \<comment> \<open>a Qdrant client whose collection-info and search calls answer as given\<close>
  "qdrant_client info answer =
     plain_object\<lparr>instanceofQdrantClient := True,
                  search := Some (\<lambda>_ _ _. answer),
                  getCollection := Some (\<lambda>_. info),
                  upsert := Some (\<lambda>_ _. Inr ())\<rparr>"

definition pinecone_client :: "(error + pinecone_response) \<Rightarrow> client" where
  \<comment> \<open>a Pinecone client whose query answers as given\<close>
  "pinecone_client answer =
     plain_object\<lparr>instanceofPinecone := True,
                  index := Some (\<lambda>_. Inr \<lparr>pi_query = (\<lambda>_ _. answer), pi_upsert = (\<lambda>_. Inr ())\<rparr>)\<rparr>"

definition chroma_client :: client where
  "chroma_client =
     plain_object\<lparr>baseUrl := Some ''http://localhost:8000'', collection := Some ''movies''\<rparr>"

definition world_of :: "client \<Rightarrow> (error + chroma_results) \<Rightarrow> world" where
  "world_of c http = \<lparr>vectorClient = c, environment = example_env, axios_post = (\<lambda>_ _. http)\<rparr>"

definition no_http :: "error + chroma_results" where
  "no_http = Inl (BackendError ''connect ECONNREFUSED'')"

definition chroma_answer :: chroma_results where
  "chroma_answer =
     \<lparr>cr_ids = Some [[''m1:title'', ''m2:plot'']],
      cr_distances = Some [[Some 0, Some 1]],
      cr_metadatas = Some [[Some [(''movieId'', JStr ''m1'')], None]]\<rparr>"

definition all_shapes_client :: client where
  \<comment> \<open>an object with \<open>search\<close>, \<open>index\<close> and \<open>baseUrl\<close> all defined\<close>
  "all_shapes_client =
     (qdrant_client (Inr \<lparr>points_count = Some 1\<rparr>) (Inr (Points example_points)))
       \<lparr>instanceofQdrantClient := False,
        index := index (pinecone_client (Inr \<lparr>matches = None\<rparr>)),
        baseUrl := Some ''http://localhost:8000''\<rparr>"

definition index_and_baseUrl_client :: client where
  \<comment> \<open>an object with \<open>index\<close> and \<open>baseUrl\<close> defined and no \<open>search\<close>\<close>
  "index_and_baseUrl_client =
     (pinecone_client (Inr \<lparr>matches = None\<rparr>))
       \<lparr>instanceofPinecone := False, baseUrl := Some ''http://localhost:8000''\<rparr>"

definition instance_without_search :: client where
  \<comment> \<open>an instance of \<open>QdrantClient\<close> whose \<open>search\<close> reads \<open>undefined\<close>, with \<open>index\<close> and
     \<open>baseUrl\<close> defined\<close>
  "instance_without_search = index_and_baseUrl_client\<lparr>instanceofQdrantClient := True\<rparr>"

definition example_embeddings :: EmbeddingRecord where
  "example_embeddings = [(''title'', [0.1, 0.2]), (''plot'', [0.3, 0.4])]"

section \<open>Observations on effects\<close>

datatype backend = Qdrant | Pinecone | Chroma

fun event_backend :: "event \<Rightarrow> backend option" where
  "event_backend (QdrantGetCollection _) = Some Qdrant"
| "event_backend (QdrantSearch _ _ _) = Some Qdrant"
| "event_backend (QdrantUpsert _ _) = Some Qdrant"
| "event_backend (PineconeIndex _) = Some Pinecone"
| "event_backend (PineconeQuery _ _ _) = Some Pinecone"
| "event_backend (PineconeUpsert _ _) = Some Pinecone"
| "event_backend (AxiosPost _ _) = Some Chroma"
| "event_backend _ = None"

fun is_search_query :: "event \<Rightarrow> bool" where
  "is_search_query (QdrantSearch _ _ _) = True"
| "is_search_query _ = False"

text \<open>The backends an execution talked to.\<close>

definition backends_used :: "event list \<Rightarrow> backend set" where
  "backends_used evs = {b. Some b \<in> set (map event_backend evs)}"


section \<open>Concrete inputs for the movie service\<close>

text \<open>The driver's identifier format: 24 hexadecimal digits of either case denote an
  identifier, whose string form is in lower case; an identifier is kept as that string.\<close>

definition is_hex :: "char \<Rightarrow> bool" where
  "is_hex c \<longleftrightarrow> c \<in> set ''0123456789abcdefABCDEF''"

definition lower_hex :: "char \<Rightarrow> char" where
  "lower_hex c =
     (if c = CHR ''A'' then CHR ''a'' else if c = CHR ''B'' then CHR ''b''
      else if c = CHR ''C'' then CHR ''c'' else if c = CHR ''D'' then CHR ''d''
      else if c = CHR ''E'' then CHR ''e'' else if c = CHR ''F'' then CHR ''f'' else c)"

definition hex_ops :: "string objectid_ops" where
  "hex_ops = \<lparr>isValid = (\<lambda>s. length s = 24 \<and> list_all is_hex s),
              castObjectId = map lower_hex,
              toHexString = (\<lambda>s. s)\<rparr>"

definition movie_of :: "'oid \<Rightarrow> string \<Rightarrow> 'oid Movie" where
  "movie_of i t =
     \<lparr>oid = i, title = t, genres = [], cast_members = [], director = None, releaseYear = None,
      plot = None, trailerUrl = None, posterUrl = None, rating = None, metadata = None,
      embeddingKeys = []\<rparr>"

definition id_a :: string where "id_a = ''507f1f77bcf86cd799439011''"
definition id_b :: string where "id_b = ''507f1f77bcf86cd799439012''"
definition id_c :: string where "id_c = ''507f1f77bcf86cd799439013''"

text \<open>The identifier of the first example movie, spelt in upper case.\<close>

definition upper_id_a :: string where "upper_id_a = ''507F1F77BCF86CD799439011''"

definition example_db :: "string database" where
  "example_db =
     \<lparr>documents = [movie_of id_a ''Alien'', movie_of id_b ''Brazil''],
      db_error = None, sorted_by = (\<lambda>_ _ xs. xs)\<rparr>"

definition empty_patch :: MoviePatch where
  "empty_patch =
     \<lparr>set_title = None, set_genres = None, set_cast = None, set_director = None,
      set_releaseYear = None, set_plot = None, set_trailerUrl = None, set_posterUrl = None,
      set_rating = None, set_metadata = None\<rparr>"

text \<open>A store of 45 documents, ordered by the database on their identifier.\<close>

definition numbered_db :: "nat database" where
  "numbered_db =
     \<lparr>documents = map (\<lambda>n. movie_of n ''Movie'') [0..<45],
      db_error = None,
      sorted_by = (\<lambda>_ dir xs. if dir = 1 then sort_key oid xs else rev (sort_key oid xs))\<rparr>"

text \<open>Three raw matches for one movie (scores 0.9, 0.7, 0.95) and one for another.\<close>

definition raw_points :: "scored_point list" where
  "raw_points =
     [\<lparr>sp_id = JNum 1, sp_score = Some 0.9, sp_payload = Some [(''movieId'', JStr id_a)]\<rparr>,
      \<lparr>sp_id = JNum 2, sp_score = Some 0.7, sp_payload = Some [(''movieId'', JStr id_a)]\<rparr>,
      \<lparr>sp_id = JNum 3, sp_score = Some 0.8, sp_payload = Some [(''movieId'', JStr id_b)]\<rparr>,
      \<lparr>sp_id = JNum 4, sp_score = Some 0.95, sp_payload = Some [(''movieId'', JStr id_a)]\<rparr>]"

definition search_world :: world where
  "search_world =
     world_of (qdrant_client (Inr \<lparr>points_count = Some 4\<rparr>) (Inr (Points raw_points))) no_http"

text \<open>Two raw matches, the better one second, for a search cut to one entry.\<close>

definition ranked_points :: "scored_point list" where
  "ranked_points =
     [\<lparr>sp_id = JNum 1, sp_score = Some 0.5, sp_payload = Some [(''movieId'', JStr id_a)]\<rparr>,
      \<lparr>sp_id = JNum 2, sp_score = Some 0.9, sp_payload = Some [(''movieId'', JStr id_b)]\<rparr>]"

definition ranked_world :: world where
  "ranked_world =
     world_of (qdrant_client (Inr \<lparr>points_count = Some 2\<rparr>) (Inr (Points ranked_points))) no_http"

section \<open>Properties of the numeric identifier\<close>

lemma length_word32_bytes: "length (word32_bytes w) = 4"
  by (simp add: word32_bytes_def)

lemma length_state_bytes: "length (state_bytes st) = 32"
  by (cases st rule: state_bytes.cases) (simp add: length_word32_bytes)

lemma length_sha256: "length (sha256 s) = 32"
  by (simp add: sha256_def length_state_bytes)

lemma be_value_bounds: "0 \<le> be_value bs \<and> be_value bs < 256 ^ length bs"
proof (induction bs)
  case Nil
  show ?case by simp
next
  case (Cons b bs)
  define X :: int where "X = 256 ^ length bs"
  have b: "0 \<le> uint b" "uint b \<le> 255"
    using uint_lt2p [of b] by simp_all
  have "uint b * X \<le> 255 * X" "0 \<le> uint b * X"
    using b by (simp_all add: mult_right_mono X_def)
  moreover have "0 \<le> be_value bs" "be_value bs < X"
    using Cons by (simp_all add: X_def)
  ultimately have "0 \<le> uint b * X + be_value bs \<and> uint b * X + be_value bs < 256 * X"
    by linarith
  then show ?case by (simp add: X_def)
qed

lemma push_bit_disjoint:
  fixes a y :: int
  assumes "0 \<le> y" "y < 2 ^ k"
  shows "push_bit k a + y = push_bit k a OR y"
proof -
  have y: "take_bit k y = y"
    using assms by (simp add: take_bit_int_eq_self)
  have "push_bit k a + take_bit k y = push_bit k a OR take_bit k y"
    by (rule disjunctive_add) (auto simp add: bit_push_bit_iff bit_take_bit_iff)
  then show ?thesis by (simp add: y)
qed

lemma word_of_int_push_bit_uint:
  "(word_of_int (push_bit k (uint b)) :: u64) = push_bit k (ucast (b::byte))"
  by (metis push_bit_of_int ucast_eq)

lemma be_word64_value: "be_word64 bs = word_of_int (be_value bs)"
proof (induction bs)
  case Nil
  show ?case by simp
next
  case (Cons b bs)
  have bnd: "0 \<le> be_value bs" "be_value bs < 2 ^ (8 * length bs)"
    using be_value_bounds [of bs] by (simp_all add: power_mult)
  have pw: "(256::int) ^ length bs = 2 ^ (8 * length bs)"
    by (simp add: power_mult)
  have "be_value (b # bs) = push_bit (8 * length bs) (uint b) + be_value bs"
    unfolding push_bit_eq_mult pw [symmetric] by simp
  also have "\<dots> = push_bit (8 * length bs) (uint b) OR be_value bs"
    by (rule push_bit_disjoint [OF bnd])
  finally have "(word_of_int (be_value (b # bs)) :: u64)
        = word_of_int (push_bit (8 * length bs) (uint b)) OR word_of_int (be_value bs)"
    by (simp only: word_wi_log_defs)
  then show ?case
    by (simp only: word_of_int_push_bit_uint be_word64.simps Cons.IH)
qed

lemma uint_be_word64:
  assumes len: "length bs \<le> 8"
  shows "uint (be_word64 bs) = be_value bs"
proof -
  have "be_value bs < 256 ^ length bs" and nonneg: "0 \<le> be_value bs"
    using be_value_bounds [of bs] by simp_all
  moreover have "(256::int) ^ length bs \<le> 256 ^ 8"
    using len by (intro power_increasing) simp_all
  ultimately have "be_value bs < 256 ^ 8"
    by linarith
  then have "be_value bs < 2 ^ LENGTH(64)"
    by simp
  then have "take_bit LENGTH(64) (be_value bs) = be_value bs"
    using nonneg by (simp only: take_bit_int_eq_self)
  then show ?thesis
    by (simp only: be_word64_value uint_word_of_int_eq)
qed

lemma stringToNumericId_eq: "stringToNumericId s = Inr (spec_numeric_id s)"
proof -
  have "readBigUInt64BE (sha256 s) 0 = Inr (be_word64 (take 8 (sha256 s)))"
    by (simp add: readBigUInt64BE_def length_sha256)
  moreover have "uint (be_word64 (take 8 (sha256 s))) = be_value (take 8 (sha256 s))"
    by (rule uint_be_word64) simp
  ultimately show ?thesis
    by (simp add: stringToNumericId_def spec_numeric_id_def MAX_SAFE_INTEGER_def)
qed

text \<open>
  C1. \<open>stringToNumericId\<close> is the specified derivation: the SHA-256 digest of the key, its
  first 8 bytes read as an unsigned big-endian integer, reduced modulo
  \<open>Number.MAX_SAFE_INTEGER\<close>. It always returns (no error), the value is a function of the
  key alone, so two applications agree, and the value is non-negative and strictly below
  \<open>Number.MAX_SAFE_INTEGER\<close>.
\<close>

theorem stringToNumericId_spec:
  "stringToNumericId s = Inr (spec_numeric_id s)
   \<and> spec_numeric_id s = be_value (take 8 (sha256 s)) mod MAX_SAFE_INTEGER
   \<and> 0 \<le> spec_numeric_id s \<and> spec_numeric_id s < MAX_SAFE_INTEGER"
  using stringToNumericId_eq [of s]
  by (simp add: spec_numeric_id_def MAX_SAFE_INTEGER_def)

section \<open>Properties of the vector search service\<close>

lemma shapes_plain:
  "\<not> isQdrant plain_object" "\<not> isPinecone plain_object" "\<not> isChroma plain_object"
  by (simp_all add: isQdrant_def isPinecone_def isChroma_def plain_object_def)

text \<open>
  C5, as the code has it. An empty embeddings mapping is rejected with the
  \<open>No embeddings provided for upsert\<close> error for every client, before any backend call (the
  effect list is empty). A client of none of the three shapes is rejected with the
  unsupported-provider error when the mapping is not empty; with an empty mapping the first
  check wins, also for such a client.
\<close>

theorem upsert_errors:
  "(embeddings = [] \<longrightarrow> upsertMovieEmbeddings w movieId embeddings = (Inl NoEmbeddings, []))
   \<and> (embeddings \<noteq> [] \<and> \<not> isQdrant (vectorClient w) \<and> \<not> isPinecone (vectorClient w)
        \<and> \<not> isChroma (vectorClient w)
      \<longrightarrow> upsertMovieEmbeddings w movieId embeddings = (Inl UnsupportedProvider, []))"
  by (simp add: upsertMovieEmbeddings_def)

theorem upsert_errors_witness:
  "upsertMovieEmbeddings (world_of plain_object no_http) ''m1'' [] = (Inl NoEmbeddings, [])
   \<and> upsertMovieEmbeddings (world_of plain_object no_http) ''m1'' example_embeddings
       = (Inl UnsupportedProvider, [])"
  using upsert_errors [of "[]" "world_of plain_object no_http" "''m1''"]
        upsert_errors [of example_embeddings "world_of plain_object no_http" "''m1''"]
  by (simp add: shapes_plain world_of_def example_embeddings_def)

text \<open>
  C5 as stated fails: for a client of none of the three shapes and an empty mapping, the
  error is not the unsupported-provider error.
\<close>

theorem upsert_unsupported_counterexample:
  "\<not> isQdrant (vectorClient (world_of plain_object no_http))
   \<and> \<not> isPinecone (vectorClient (world_of plain_object no_http))
   \<and> \<not> isChroma (vectorClient (world_of plain_object no_http))
   \<and> fst (upsertMovieEmbeddings (world_of plain_object no_http) ''m1'' []) = Inl NoEmbeddings
   \<and> fst (upsertMovieEmbeddings (world_of plain_object no_http) ''m1'' [])
       \<noteq> Inl UnsupportedProvider"
  by (simp add: upsertMovieEmbeddings_def shapes_plain world_of_def)

text \<open>
  C3 does not hold of the code: only the Qdrant branch catches a failed query. A Pinecone
  client whose \<open>query\<close> is rejected, and a Chroma client whose HTTP request is rejected, make
  \<open>semanticSearch\<close> fail with that error, with nothing logged; the same failure of a Qdrant
  \<open>search\<close> is logged and gives the empty list.
\<close>

theorem semanticSearch_propagates_query_failure:
  "semanticSearch (world_of (pinecone_client (Inl (BackendError ''query failed''))) no_http) [0.1] 10
     = (Inl (BackendError ''query failed''),
        [PineconeIndex ''movies'', PineconeQuery ''movies'' [0.1] 10])
   \<and> semanticSearch (world_of chroma_client no_http) [0.1] 10
     = (Inl (BackendError ''connect ECONNREFUSED''),
        [AxiosPost ''http://localhost:8000/collections/movies/query'' (QueryBody [[0.1]] 10)])
   \<and> semanticSearch (world_of (qdrant_client (Inr \<lparr>points_count = Some 3\<rparr>)
                                    (Inl (BackendError ''query failed''))) no_http) [0.1] 10
     = (Inr [],
        [QdrantGetCollection ''movies'', QdrantSearch ''movies'' [0.1] 10,
         LogError ''Qdrant search error'' (Some (BackendError ''query failed'')),
         LogWarn ''Returning empty results due to search error''])"
  by (simp add: semanticSearch_def searchPinecone_def searchChroma_def searchQdrant_def
      isQdrant_def isPinecone_def isChroma_def world_of_def pinecone_client_def chroma_client_def
      qdrant_client_def plain_object_def no_http_def example_env_def pinecone_index_name_def
      js_or_string_def chroma_url_def template_opt_def qdrant_search_failed_def Let_def)

lemma searchQdrant_short_circuit:
  assumes "getCollection (vectorClient w) = None
         \<or> (\<exists>gc e. getCollection (vectorClient w) = Some gc
                \<and> gc (VECTOR_COLLECTION (environment w)) = Inl e)
         \<or> (\<exists>gc info. getCollection (vectorClient w) = Some gc
                \<and> gc (VECTOR_COLLECTION (environment w)) = Inr info \<and> points_count info = Some 0)"
  shows "fst (searchQdrant w embedding limit) = Inr []
       \<and> filter is_search_query (snd (searchQdrant w embedding limit)) = []"
  using assms by (auto simp add: searchQdrant_def Let_def)

lemma qdrant_client_simps:
  "isQdrant (qdrant_client info answer)"
  "getCollection (qdrant_client info answer) = Some (\<lambda>_. info)"
  by (simp_all add: qdrant_client_def isQdrant_def)

text \<open>
  C4. For a client handled as Qdrant, when the collection-info call fails (or the member is
  missing) or reports \<open>points_count = 0\<close>, \<open>semanticSearch\<close> returns the empty list, not an
  error, and no search query is issued.
\<close>

theorem semanticSearch_missing_or_empty_collection:
  assumes "isQdrant (vectorClient w)"
    and "getCollection (vectorClient w) = None
         \<or> (\<exists>gc e. getCollection (vectorClient w) = Some gc
                \<and> gc (VECTOR_COLLECTION (environment w)) = Inl e)
         \<or> (\<exists>gc info. getCollection (vectorClient w) = Some gc
                \<and> gc (VECTOR_COLLECTION (environment w)) = Inr info \<and> points_count info = Some 0)"
  shows "fst (semanticSearch w embedding limit) = Inr []
       \<and> filter is_search_query (snd (semanticSearch w embedding limit)) = []"
  using assms(1) searchQdrant_short_circuit [OF assms(2)]
  by (simp add: semanticSearch_def)

theorem semanticSearch_missing_or_empty_collection_witness:
  "fst (semanticSearch (world_of (qdrant_client (Inl (BackendError ''Not found''))
                                    (Inr (Points example_points))) no_http) [0.1] 10) = Inr []
   \<and> filter is_search_query
        (snd (semanticSearch (world_of (qdrant_client (Inl (BackendError ''Not found''))
                                          (Inr (Points example_points))) no_http) [0.1] 10)) = []
   \<and> fst (semanticSearch (world_of (qdrant_client (Inr \<lparr>points_count = Some 0\<rparr>)
                                    (Inr (Points example_points))) no_http) [0.1] 10) = Inr []
   \<and> filter is_search_query
        (snd (semanticSearch (world_of (qdrant_client (Inr \<lparr>points_count = Some 0\<rparr>)
                                          (Inr (Points example_points))) no_http) [0.1] 10)) = []"
  using semanticSearch_missing_or_empty_collection
          [of "world_of (qdrant_client (Inl (BackendError ''Not found''))
                           (Inr (Points example_points))) no_http" "[0.1]" 10]
        semanticSearch_missing_or_empty_collection
          [of "world_of (qdrant_client (Inr \<lparr>points_count = Some 0\<rparr>)
                           (Inr (Points example_points))) no_http" "[0.1]" 10]
  by (simp add: world_of_def qdrant_client_simps)

lemma chroma_matches_nth:
  assumes "cr_ids results = Some (ids # rest)" "idx < length ids"
  shows "length (chroma_matches results) = length ids
       \<and> vm_id (chroma_matches results ! idx) = ids ! idx
       \<and> vm_score (chroma_matches results ! idx)
           = 1 - or_zero (js_nth (first_or_empty (cr_distances results)) idx)"
  using assms by (simp add: chroma_matches_def chroma_match_def Let_def)

lemma chroma_client_shape:
  "\<not> isQdrant chroma_client" "\<not> isPinecone chroma_client" "isChroma chroma_client"
  by (simp_all add: chroma_client_def plain_object_def isQdrant_def isPinecone_def isChroma_def)

text \<open>
  C6. For a client handled as Chroma whose query answers with identifiers and distances,
  \<open>semanticSearch\<close> returns one match per identifier, and the match at a position with a
  reported distance \<open>d\<close> has score \<open>1 - d\<close>. The witness has the distances 0 and 1, with
  scores 1 and 0.
\<close>

theorem chroma_distance_to_similarity:
  assumes chroma: "\<not> isQdrant (vectorClient w)" "\<not> isPinecone (vectorClient w)"
      "isChroma (vectorClient w)"
    and answer: "axios_post w (chroma_url (vectorClient w) ''/query'') (QueryBody [embedding] limit)
                   = Inr results"
    and ids: "cr_ids results = Some (ids # rest)"
    and distances: "cr_distances results = Some (distances # rest')"
    and idx: "idx < length ids" "idx < length distances" "distances ! idx = Some d"
  shows "fst (semanticSearch w embedding limit) = Inr (chroma_matches results)
       \<and> length (chroma_matches results) = length ids
       \<and> vm_id (chroma_matches results ! idx) = ids ! idx
       \<and> vm_score (chroma_matches results ! idx) = 1 - d"
proof -
  have "fst (semanticSearch w embedding limit) = Inr (chroma_matches results)"
    using chroma answer by (simp add: semanticSearch_def searchChroma_def Let_def)
  moreover have "or_zero (js_nth (first_or_empty (cr_distances results)) idx) = d"
    using distances idx by (simp add: first_or_empty_def js_nth_def or_zero_def)
  ultimately show ?thesis
    using chroma_matches_nth [OF ids idx(1)] by simp
qed

theorem chroma_distance_to_similarity_witness:
  "fst (semanticSearch (world_of chroma_client (Inr chroma_answer)) [0.1] 10)
     = Inr (chroma_matches chroma_answer)
   \<and> vm_id (chroma_matches chroma_answer ! 0) = ''m1:title''
   \<and> vm_score (chroma_matches chroma_answer ! 0) = 1
   \<and> vm_id (chroma_matches chroma_answer ! 1) = ''m2:plot''
   \<and> vm_score (chroma_matches chroma_answer ! 1) = 0"
  using chroma_distance_to_similarity
          [of "world_of chroma_client (Inr chroma_answer)" "[0.1]" 10 chroma_answer
              "[''m1:title'', ''m2:plot'']" "[]" "[Some 0, Some 1]" "[]" 0 0]
        chroma_distance_to_similarity
          [of "world_of chroma_client (Inr chroma_answer)" "[0.1]" 10 chroma_answer
              "[''m1:title'', ''m2:plot'']" "[]" "[Some 0, Some 1]" "[]" 1 1]
  by (simp add: world_of_def chroma_client_shape chroma_answer_def)

lemma searchQdrant_backends: "backends_used (snd (searchQdrant w e l)) \<subseteq> {Qdrant}"
  by (auto simp add: searchQdrant_def backends_used_def Let_def qdrant_search_failed_def
      split: option.splits sum.splits qdrant_response.splits if_splits)

lemma upsertQdrant_backends: "backends_used (snd (upsertQdrant w m es)) \<subseteq> {Qdrant}"
  by (auto simp add: upsertQdrant_def backends_used_def Let_def
      split: option.splits sum.splits)

lemma searchPinecone_backends: "backends_used (snd (searchPinecone w e l)) \<subseteq> {Pinecone}"
  by (auto simp add: searchPinecone_def backends_used_def Let_def
      split: option.splits sum.splits)

lemma upsertPinecone_backends: "backends_used (snd (upsertPinecone w m es)) \<subseteq> {Pinecone}"
  by (auto simp add: upsertPinecone_def backends_used_def Let_def
      split: option.splits sum.splits)

text \<open>
  C10, as the code has it. Classification is by precedence: Qdrant first, then Pinecone,
  then Chroma. The Qdrant and Pinecone tests hold for an instance of the client class or
  when the property (\<open>search\<close>, \<open>index\<close>) is defined; the Chroma test is the presence of
  \<open>baseUrl\<close>. So a client with \<open>search\<close> defined (or an instance of \<open>QdrantClient\<close>) runs the
  Qdrant branch of both \<open>semanticSearch\<close> and \<open>upsertMovieEmbeddings\<close> and talks to no other
  backend, whatever \<open>index\<close> and \<open>baseUrl\<close> are; a client with \<open>index\<close> defined, no \<open>search\<close>
  and not an instance of \<open>QdrantClient\<close> runs the Pinecone branch, whatever \<open>baseUrl\<close> is;
  Chroma comes last.
\<close>

theorem backend_precedence:
  "(isQdrant (vectorClient w) \<longleftrightarrow>
      instanceofQdrantClient (vectorClient w) \<or> search (vectorClient w) \<noteq> None)
   \<and> (isPinecone (vectorClient w) \<longleftrightarrow>
      instanceofPinecone (vectorClient w) \<or> index (vectorClient w) \<noteq> None)
   \<and> (isChroma (vectorClient w) \<longleftrightarrow> baseUrl (vectorClient w) \<noteq> None)
   \<and> (instanceofQdrantClient (vectorClient w) \<or> search (vectorClient w) \<noteq> None \<longrightarrow>
        semanticSearch w e l = searchQdrant w e l
      \<and> backends_used (snd (semanticSearch w e l)) \<subseteq> {Qdrant}
      \<and> (es \<noteq> [] \<longrightarrow> upsertMovieEmbeddings w m es = upsertQdrant w m es
                      \<and> backends_used (snd (upsertMovieEmbeddings w m es)) \<subseteq> {Qdrant}))
   \<and> (\<not> instanceofQdrantClient (vectorClient w) \<and> search (vectorClient w) = None
        \<and> (instanceofPinecone (vectorClient w) \<or> index (vectorClient w) \<noteq> None) \<longrightarrow>
        semanticSearch w e l = searchPinecone w e l
      \<and> backends_used (snd (semanticSearch w e l)) \<subseteq> {Pinecone}
      \<and> (es \<noteq> [] \<longrightarrow> upsertMovieEmbeddings w m es = upsertPinecone w m es
                      \<and> backends_used (snd (upsertMovieEmbeddings w m es)) \<subseteq> {Pinecone}))
   \<and> (\<not> instanceofQdrantClient (vectorClient w) \<and> search (vectorClient w) = None
        \<and> \<not> instanceofPinecone (vectorClient w) \<and> index (vectorClient w) = None
        \<and> baseUrl (vectorClient w) \<noteq> None \<longrightarrow>
        semanticSearch w e l = searchChroma w e l
      \<and> (es \<noteq> [] \<longrightarrow> upsertMovieEmbeddings w m es = upsertChroma w m es))"
proof -
  have q: "isQdrant (vectorClient w) \<longleftrightarrow>
      instanceofQdrantClient (vectorClient w) \<or> search (vectorClient w) \<noteq> None"
    by (simp add: isQdrant_def)
  have p: "isPinecone (vectorClient w) \<longleftrightarrow>
      instanceofPinecone (vectorClient w) \<or> index (vectorClient w) \<noteq> None"
    by (simp add: isPinecone_def)
  have c: "isChroma (vectorClient w) \<longleftrightarrow> baseUrl (vectorClient w) \<noteq> None"
    by (simp add: isChroma_def)
  show ?thesis
    using searchQdrant_backends [of w e l] upsertQdrant_backends [of w m es]
      searchPinecone_backends [of w e l] upsertPinecone_backends [of w m es]
    by (auto simp add: q p c semanticSearch_def upsertMovieEmbeddings_def)
qed

lemma example_shapes:
  "\<not> instanceofQdrantClient all_shapes_client"
  "search all_shapes_client \<noteq> None" "index all_shapes_client \<noteq> None"
  "baseUrl all_shapes_client \<noteq> None"
  "\<not> instanceofQdrantClient index_and_baseUrl_client"
  "search index_and_baseUrl_client = None" "index index_and_baseUrl_client \<noteq> None"
  "baseUrl index_and_baseUrl_client \<noteq> None"
  by (simp_all add: all_shapes_client_def index_and_baseUrl_client_def
      qdrant_client_def pinecone_client_def plain_object_def)

theorem backend_precedence_witness:
  "semanticSearch (world_of all_shapes_client no_http) [0.1] 10
     = searchQdrant (world_of all_shapes_client no_http) [0.1] 10
   \<and> upsertMovieEmbeddings (world_of all_shapes_client no_http) ''m1'' example_embeddings
     = upsertQdrant (world_of all_shapes_client no_http) ''m1'' example_embeddings
   \<and> backends_used (snd (semanticSearch (world_of all_shapes_client no_http) [0.1] 10))
       \<subseteq> {Qdrant}
   \<and> semanticSearch (world_of index_and_baseUrl_client no_http) [0.1] 10
     = searchPinecone (world_of index_and_baseUrl_client no_http) [0.1] 10
   \<and> upsertMovieEmbeddings (world_of index_and_baseUrl_client no_http) ''m1'' example_embeddings
     = upsertPinecone (world_of index_and_baseUrl_client no_http) ''m1'' example_embeddings"
  using backend_precedence
          [of "world_of all_shapes_client no_http" "[0.1]" 10 example_embeddings "''m1''"]
        backend_precedence
          [of "world_of index_and_baseUrl_client no_http" "[0.1]" 10 example_embeddings "''m1''"]
  by (auto simp add: world_of_def example_shapes example_embeddings_def)

text \<open>
  C10 as stated fails: the Qdrant test is not only the presence of \<open>search\<close>. An instance of
  \<open>QdrantClient\<close> whose \<open>search\<close> reads \<open>undefined\<close> passes it, and with \<open>index\<close> defined it is
  handled as Qdrant (the collection check, which finds no such member and returns the empty
  list with a warning), not as Pinecone (which would query the index).
\<close>

theorem backend_precedence_counterexample:
  "search instance_without_search = None
   \<and> index instance_without_search \<noteq> None
   \<and> isQdrant instance_without_search
   \<and> semanticSearch (world_of instance_without_search no_http) [0.1] 10
       = (Inr [], [LogWarn (''Vector collection '' @ [CHR 0x27] @ ''movies'' @ [CHR 0x27]
                            @ '' does not exist. Returning empty results.'')])
   \<and> searchPinecone (world_of instance_without_search no_http) [0.1] 10
       = (Inr [], [PineconeIndex ''movies'', PineconeQuery ''movies'' [0.1] 10])
   \<and> semanticSearch (world_of instance_without_search no_http) [0.1] 10
       \<noteq> searchPinecone (world_of instance_without_search no_http) [0.1] 10"
  by (simp add: instance_without_search_def index_and_baseUrl_client_def pinecone_client_def
      plain_object_def isQdrant_def semanticSearch_def searchQdrant_def searchPinecone_def
      world_of_def example_env_def pinecone_index_name_def js_or_string_def Let_def)

section \<open>Properties of the movie service\<close>

text \<open>
  C9. An identifier that fails the format check is "not found": \<open>getMovieById\<close> and
  \<open>updateMovie\<close> return \<open>null\<close>, \<open>deleteMovie\<close> returns \<open>false\<close>; nothing is thrown, no
  database call is issued (the effect list is empty) and the store is unchanged.
\<close>

theorem invalid_identifier_not_found:
  assumes "\<not> isValid ops i"
  shows "getMovieById ops db i = (Inr None, [])
       \<and> updateMovie ops db i p = (Inr None, [], db)
       \<and> deleteMovie ops db i = (Inr False, [], db)"
  using assms by (simp add: getMovieById_def updateMovie_def deleteMovie_def)

lemma not_valid_example: "\<not> isValid hex_ops ''not-an-object-id''"
  by (simp add: hex_ops_def)

theorem invalid_identifier_not_found_witness:
  "getMovieById hex_ops example_db ''not-an-object-id'' = (Inr None, [])
   \<and> updateMovie hex_ops example_db ''not-an-object-id'' empty_patch = (Inr None, [], example_db)
   \<and> deleteMovie hex_ops example_db ''not-an-object-id'' = (Inr False, [], example_db)"
  using invalid_identifier_not_found [OF not_valid_example, of example_db empty_patch]
  by simp

text \<open>
  C8. While the database answers and the skip is not negative, \<open>getAllMovies\<close> returns the
  document count as \<open>total\<close> and \<open>totalPages = ceil(total / limit)\<close>; for \<open>limit = 0\<close> the
  quotient is the JavaScript one (infinite, or NaN for an empty store). With 45 documents,
  limit 20 and page 1, \<open>totalPages\<close> is 3 and the page has 20 documents (the database's
  sort being a permutation of the collection).
\<close>

theorem getAllMovies_totalPages:
  assumes up: "db_error db = None"
    and skip: "0 \<le> (pg - 1) * limit"
  shows "\<exists>r. fst (getAllMovies db pg limit sortBy sortOrder) = Inr r
           \<and> total_count r = int (length (documents db))
           \<and> page r = pg
           \<and> (limit \<noteq> 0 \<longrightarrow>
                 totalPages r = Finite \<lceil>real (length (documents db)) / real_of_int limit\<rceil>)
           \<and> (limit = 0 \<longrightarrow>
                 totalPages r = (if documents db = [] then NaN else PosInfinity))
           \<and> (length (documents db) = 45 \<and> limit = 20 \<and> pg = 1
                \<and> mset (sorted_by db sortBy (if sortOrder = asc then 1 else - 1) (documents db))
                    = mset (documents db)
              \<longrightarrow> totalPages r = Finite 3 \<and> length (movies r) = 20)"
proof -
  have len: "length (sorted_by db sortBy d (documents db)) = length (documents db)"
    if "mset (sorted_by db sortBy d (documents db)) = mset (documents db)" for d
    using that by (metis size_mset)
  have c: "\<lceil>(45::real) / 20\<rceil> = 3"
    by (simp add: ceiling_eq_iff)
  show ?thesis
    using up skip len c
    by (auto simp add: getAllMovies_def Let_def ceil_div_def db_limit_def)
qed

lemma numbered_db_simps:
  "db_error numbered_db = None"
  "length (documents numbered_db) = 45"
  "mset (sorted_by numbered_db f d (documents numbered_db)) = mset (documents numbered_db)"
  by (simp_all add: numbered_db_def)

theorem getAllMovies_totalPages_witness:
  "\<exists>r. fst (getAllMovies numbered_db 1 20 ''createdAt'' desc) = Inr r
       \<and> total_count r = 45 \<and> totalPages r = Finite 3 \<and> length (movies r) = 20"
  using getAllMovies_totalPages [of numbered_db 1 20 "''createdAt''" desc]
  by (auto simp add: numbered_db_simps)

lemma map_of_obj_set: "map_of (obj_set k v kvs) = (map_of kvs)(k \<mapsto> v)"
  by (induction kvs) auto

lemma keys_obj_set: "fst ` set (obj_set k v kvs) = insert k (fst ` set kvs)"
  by (induction kvs) force+

lemma distinct_obj_set: "distinct (map fst kvs) \<Longrightarrow> distinct (map fst (obj_set k v kvs))"
  by (induction kvs) (auto simp add: keys_obj_set)

lemma find_SomeD: "find P xs = Some x \<Longrightarrow> x \<in> set xs \<and> P x"
  by (induction xs) (auto split: if_splits)

lemma find_key_Some:
  "inj_on key (set xs) \<Longrightarrow> m \<in> set xs \<Longrightarrow> find (\<lambda>x. key x = key m) xs = Some m"
  by (induction xs) (auto simp add: inj_on_def)

lemma find_snoc:
  "find P (xs @ [x]) = (case find P xs of None \<Rightarrow> (if P x then Some x else None) | Some y \<Rightarrow> Some y)"
  by (induction xs) auto

lemma map_of_fold_obj_set:
  "map_of (foldl (\<lambda>acc m. obj_set (key m) m acc) init ms) i
     = (case find (\<lambda>m. key m = i) (rev ms) of None \<Rightarrow> map_of init i | Some m \<Rightarrow> Some m)"
  by (induction ms arbitrary: init) (auto simp add: map_of_obj_set find_snoc split: option.splits)

lemma map_filter_cong_set:
  "(\<And>x. x \<in> set xs \<Longrightarrow> f x = g x) \<Longrightarrow> List.map_filter f xs = List.map_filter g xs"
proof (induction xs)
  case Nil
  show ?case by simp
next
  case (Cons x xs)
  have "f x = g x" "List.map_filter f xs = List.map_filter g xs"
    using Cons by simp_all
  then show ?case by (simp split: option.splits)
qed

lemma map_filter_all_None:
  "(\<And>x. x \<in> set xs \<Longrightarrow> f x = None) \<Longrightarrow> List.map_filter f xs = []"
  by (induction xs) auto

lemma cast_all_valid:
  "list_all (isValid ops) xs \<Longrightarrow> cast_all ops xs = Inr (map (castObjectId ops) xs)"
  by (induction xs) (simp_all add: cast_query_def)

lemma cast_all_invalid:
  "i \<in> set xs \<Longrightarrow> \<not> isValid ops i \<Longrightarrow> cast_all ops xs = Inl CastError"
  by (induction xs) (auto simp add: cast_query_def split: sum.splits)

text \<open>The query fails on a string that is not valid: the filter in \<open>getMoviesByIds\<close> is
  what keeps such strings from it.\<close>

lemma db_find_in_invalid:
  "i \<in> set xs \<Longrightarrow> \<not> isValid ops i \<Longrightarrow> db_find_in ops db xs = Inl CastError"
  by (simp add: db_find_in_def cast_all_invalid)

lemma db_find_in_valid:
  "db_error db = None \<Longrightarrow>
   db_find_in ops db (filter (isValid ops) ids)
     = Inr (filter (\<lambda>m. oid m \<in> set (map (castObjectId ops) (filter (isValid ops) ids)))
              (documents db))"
  by (simp add: db_find_in_def cast_all_valid list_all_iff)

lemma wf_store_docs:
  assumes "wf_store ops db" "m \<in> set (documents db)"
  shows "movie_id ops m \<noteq> []" "isValid ops (movie_id ops m)"
    "castObjectId ops (movie_id ops m) = oid m"
  using assms by (auto simp add: wf_store_def list_all_iff)

lemma wf_store_inj:
  assumes "wf_store ops db"
  shows "inj_on (movie_id ops) (set (documents db))"
proof (rule inj_onI)
  fix m m'
  assume m: "m \<in> set (documents db)" and m': "m' \<in> set (documents db)"
    and eq: "movie_id ops m = movie_id ops m'"
  have "oid m = oid m'"
    using wf_store_docs(3) [OF assms m] wf_store_docs(3) [OF assms m'] eq by simp
  moreover have "inj_on oid (set (documents db))"
    using assms by (simp add: wf_store_def distinct_map)
  ultimately show "m = m'"
    using m m' by (simp add: inj_on_def)
qed

lemma getMoviesByIds_found:
  assumes wf: "wf_store ops db" and up: "db_error db = None"
  shows "fst (getMoviesByIds ops db ids) = Inr (List.map_filter (by_id ops db) ids)"
proof (cases "filter (isValid ops) ids = []")
  case True
  have "by_id ops db i = None" if "i \<in> set ids" for i
  proof (rule ccontr)
    assume "by_id ops db i \<noteq> None"
    then obtain m where "m \<in> set (documents db)" "movie_id ops m = i"
      by (auto simp add: by_id_def dest: find_SomeD)
    then have "isValid ops i"
      using wf_store_docs(2) [OF wf] by auto
    with that True show False
      by (auto simp add: filter_empty_conv)
  qed
  then have "List.map_filter (by_id ops db) ids = []"
    by (rule map_filter_all_None)
  with True show ?thesis
    by (simp add: getMoviesByIds_def)
next
  case False
  define valid where "valid = filter (isValid ops) ids"
  define found where
    "found = filter (\<lambda>m. oid m \<in> set (map (castObjectId ops) valid)) (documents db)"
  define movieMap where
    "movieMap = foldl (\<lambda>acc movie. obj_set (movie_id ops movie) movie acc) [] found"
  have res: "fst (getMoviesByIds ops db ids) = Inr (List.map_filter (map_of movieMap) ids)"
    using False db_find_in_valid [OF up, of ops ids]
    by (simp add: getMoviesByIds_def Let_def valid_def found_def movieMap_def)
  have inj: "inj_on (movie_id ops) (set (rev found))"
    using wf_store_inj [OF wf] by (auto simp add: found_def inj_on_def)
  have "map_of movieMap i = by_id ops db i" if i: "i \<in> set ids" for i
  proof (cases "\<exists>m \<in> set (documents db). movie_id ops m = i")
    case True
    then obtain m where m: "m \<in> set (documents db)" "movie_id ops m = i"
      by auto
    have "isValid ops i" "castObjectId ops i = oid m"
      using wf_store_docs(2,3) [OF wf m(1)] m(2) by auto
    then have "m \<in> set (rev found)"
      using i m(1) by (force simp add: found_def valid_def)
    then have "find (\<lambda>x. movie_id ops x = movie_id ops m) (rev found) = Some m"
      by (rule find_key_Some [OF inj])
    moreover have "find (\<lambda>x. movie_id ops x = movie_id ops m) (documents db) = Some m"
      by (rule find_key_Some [OF wf_store_inj [OF wf] m(1)])
    ultimately show ?thesis
      using m(2) by (simp add: movieMap_def map_of_fold_obj_set by_id_def)
  next
    case False
    then have "find (\<lambda>m. movie_id ops m = i) (documents db) = None"
      by (simp add: find_None_iff)
    moreover have "find (\<lambda>m. movie_id ops m = i) (rev found) = None"
      using False by (simp add: find_None_iff found_def)
    ultimately show ?thesis
      by (simp add: movieMap_def map_of_fold_obj_set by_id_def)
  qed
  then have "List.map_filter (map_of movieMap) ids = List.map_filter (by_id ops db) ids"
    by (rule map_filter_cong_set)
  with res show ?thesis by simp
qed

lemma by_id_Some:
  assumes "by_id ops db i = Some m"
  shows "m \<in> set (documents db)" "movie_id ops m = i"
  using assms by (auto simp add: by_id_def dest: find_SomeD)

lemma by_id_None: "by_id ops db i = None \<longleftrightarrow> (\<forall>m \<in> set (documents db). movie_id ops m \<noteq> i)"
  by (auto simp add: by_id_def find_None_iff)

lemma map_filter_ids:
  "map (movie_id ops) (List.map_filter (by_id ops db) ids)
     = filter (\<lambda>i. \<exists>m \<in> set (documents db). movie_id ops m = i) ids"
proof (induction ids)
  case Nil
  show ?case by simp
next
  case (Cons i ids)
  show ?case
  proof (cases "by_id ops db i")
    case None
    then have "\<not> (\<exists>m \<in> set (documents db). movie_id ops m = i)"
      by (simp add: by_id_None)
    then show ?thesis
      using Cons None by simp
  next
    case (Some m)
    then show ?thesis
      using Cons by_id_Some [OF Some] by auto
  qed
qed

lemma set_map_filter: "set (List.map_filter f xs) = {y. \<exists>x \<in> set xs. f x = Some y}"
  by (induction xs) (auto split: option.splits)

text \<open>
  What \<open>getMoviesByIds\<close> does on a well-formed store that answers: for the input
  identifiers in their order, it returns the stored document whose string form of the
  identifier is that input string, and nothing for the others.
\<close>

lemma getMoviesByIds_by_string:
  assumes wf: "wf_store ops db" and up: "db_error db = None"
  shows "fst (getMoviesByIds ops db ids) = Inr (List.map_filter (by_id ops db) ids)
       \<and> map (movie_id ops) (List.map_filter (by_id ops db) ids)
           = filter (\<lambda>i. \<exists>m \<in> set (documents db). movie_id ops m = i) ids
       \<and> set (List.map_filter (by_id ops db) ids) \<subseteq> set (documents db)
       \<and> (\<forall>i \<in> set ids. \<not> isValid ops i \<or> db_findById ops db i = Inr None
             \<longrightarrow> i \<notin> movie_id ops ` set (List.map_filter (by_id ops db) ids))"
proof -
  define ms where "ms = List.map_filter (by_id ops db) ids"
  have sub: "set ms \<subseteq> set (documents db)"
    by (auto simp add: ms_def set_map_filter dest: by_id_Some)
  have omitted: "i \<notin> movie_id ops ` set ms"
    if "\<not> isValid ops i \<or> db_findById ops db i = Inr None" for i
  proof
    assume "i \<in> movie_id ops ` set ms"
    then obtain m where m: "m \<in> set (documents db)" "movie_id ops m = i"
      using sub by auto
    have v: "isValid ops i" "castObjectId ops i = oid m"
      using wf_store_docs(2,3) [OF wf m(1)] m(2) by auto
    have "find (\<lambda>d. oid d = oid m) (documents db) \<noteq> None"
      using m(1) by (auto simp add: find_None_iff)
    then have "db_findById ops db i \<noteq> Inr None"
      using v up by (simp add: db_findById_def cast_query_def)
    then show False using that v(1) by simp
  qed
  show ?thesis
    using getMoviesByIds_found [OF wf up, of ids] map_filter_ids [of ops db ids] sub omitted
    unfolding ms_def by blast
qed

lemma hex_ops_simps:
  "isValid hex_ops s \<longleftrightarrow> length s = 24 \<and> list_all is_hex s"
  "castObjectId hex_ops s = map lower_hex s"
  "toHexString hex_ops s = s"
  by (simp_all add: hex_ops_def)

lemma wf_example_db: "wf_store hex_ops example_db"
  by (simp add: wf_store_def example_db_def movie_id_def movie_of_def hex_ops_simps
      id_a_def id_b_def is_hex_def lower_hex_def)

lemma up_example_db: "db_error example_db = None"
  by (simp add: example_db_def)

text \<open>
  C7 does not hold of the code. The documents the query finds are put back in input order
  by looking each input string up among the string forms of the found identifiers, so an
  input that spells a stored identifier differently is dropped. The upper-case spelling
  of the first example movie's identifier is valid, \<open>getMovieById\<close> returns the movie for
  it, and the query of \<open>getMoviesByIds\<close> is issued for it, yet \<open>getMoviesByIds\<close> returns
  the empty list.
\<close>

theorem getMoviesByIds_drops_found_document:
  "isValid hex_ops upper_id_a
   \<and> getMovieById hex_ops example_db upper_id_a
       = (Inr (Some (movie_of id_a ''Alien'')), [DbFindById upper_id_a])
   \<and> db_find_in hex_ops example_db [upper_id_a] = Inr [movie_of id_a ''Alien'']
   \<and> getMoviesByIds hex_ops example_db [upper_id_a] = (Inr [], [DbFind [upper_id_a]])"
  by (simp add: getMovieById_def getMoviesByIds_def db_findById_def db_find_in_def
      cast_query_def hex_ops_simps example_db_def movie_of_def movie_id_def
      upper_id_a_def id_a_def id_b_def is_hex_def lower_hex_def)

lemma map_of_index_movie:
  "movie_id ops m \<noteq> [] \<Longrightarrow> map_of (index_movie ops acc m) = (map_of acc)(movie_id ops m \<mapsto> m)"
  by (simp add: index_movie_def js_or_string_def movie_id_def map_of_obj_set Let_def)

lemma map_of_fold_index_movie:
  "(\<And>m. m \<in> set ms \<Longrightarrow> movie_id ops m \<noteq> []) \<Longrightarrow>
   map_of (foldl (index_movie ops) init ms) i
     = (case find (\<lambda>m. movie_id ops m = i) (rev ms) of None \<Rightarrow> map_of init i | Some m \<Rightarrow> Some m)"
proof (induction ms arbitrary: init)
  case Nil
  show ?case by simp
next
  case (Cons m ms)
  have "map_of (index_movie ops init m) = (map_of init)(movie_id ops m \<mapsto> m)"
    by (rule map_of_index_movie) (simp add: Cons.prems)
  then show ?case
    using Cons.IH [of "index_movie ops init m"] Cons.prems
    by (auto simp add: find_snoc split: option.splits)
qed

text \<open>The lookup table built from the loaded movies.\<close>

lemma movieMap_lookup:
  assumes wf: "wf_store ops db"
  shows "map_of (foldl (index_movie ops) [] (List.map_filter (by_id ops db) ids)) i
           = (if i \<in> set ids then by_id ops db i else None)"
proof -
  define loaded where "loaded = List.map_filter (by_id ops db) ids"
  have loaded: "m \<in> set loaded \<longleftrightarrow> (\<exists>j \<in> set ids. by_id ops db j = Some m)" for m
    by (auto simp add: loaded_def set_map_filter)
  have sub: "set loaded \<subseteq> set (documents db)"
    using loaded by (auto dest: by_id_Some)
  have nonempty: "movie_id ops m \<noteq> []" if "m \<in> set loaded" for m
    using wf_store_docs(1) [OF wf] sub that by auto
  have inj: "inj_on (movie_id ops) (set (rev loaded))"
    using wf_store_inj [OF wf] sub by (auto simp add: inj_on_def)
  have look: "map_of (foldl (index_movie ops) [] loaded) i
      = find (\<lambda>m. movie_id ops m = i) (rev loaded)"
    using map_of_fold_index_movie [of loaded ops "[]" i] nonempty
    by (simp split: option.splits)
  show ?thesis
  proof (cases "i \<in> set ids \<and> by_id ops db i \<noteq> None")
    case True
    then obtain m where m: "by_id ops db i = Some m" by auto
    then have "m \<in> set (rev loaded)" "movie_id ops m = i"
      using True loaded by_id_Some [OF m] by auto
    then have "find (\<lambda>x. movie_id ops x = i) (rev loaded) = Some m"
      using find_key_Some [OF inj, of m] by simp
    then show ?thesis
      using True m look by (simp add: loaded_def)
  next
    case False
    have "movie_id ops m \<noteq> i" if mem: "m \<in> set loaded" for m
    proof
      assume eq: "movie_id ops m = i"
      obtain j where j: "j \<in> set ids" "by_id ops db j = Some m"
        using mem loaded [of m] by auto
      have "j = i" using by_id_Some(2) [OF j(2)] eq by simp
      with j False show False by simp
    qed
    then have "find (\<lambda>m. movie_id ops m = i) (rev loaded) = None"
      by (simp add: find_None_iff)
    then show ?thesis
      using False look by (auto simp add: loaded_def)
  qed
qed


lemma score_map_invI:
  assumes "distinct (map fst A)"
    and "\<And>k m s. map_of A k = Some (m, s) \<Longrightarrow> map_of mm k = Some m"
    and "\<And>k m s. map_of A k = Some (m, s) \<Longrightarrow> \<exists>x \<in> set ps. match_movieId x = k \<and> vm_score x = s"
    and "\<And>k m s x. map_of A k = Some (m, s) \<Longrightarrow> x \<in> set ps \<Longrightarrow> match_movieId x = k
            \<Longrightarrow> vm_score x \<le> s"
    and "\<And>x. x \<in> set ps \<Longrightarrow> map_of mm (match_movieId x) \<noteq> None
            \<Longrightarrow> map_of A (match_movieId x) \<noteq> None"
  shows "score_map_inv mm ps A"
  unfolding score_map_inv_def using assms by blast

lemma score_map_invD:
  assumes "score_map_inv mm ps A"
  shows "distinct (map fst A)"
    and "map_of A k = Some (m, s) \<Longrightarrow> map_of mm k = Some m"
    and "map_of A k = Some (m, s) \<Longrightarrow> \<exists>x \<in> set ps. match_movieId x = k \<and> vm_score x = s"
    and "map_of A k = Some (m, s) \<Longrightarrow> x \<in> set ps \<Longrightarrow> match_movieId x = k \<Longrightarrow> vm_score x \<le> s"
    and "x \<in> set ps \<Longrightarrow> map_of mm (match_movieId x) \<noteq> None \<Longrightarrow> map_of A (match_movieId x) \<noteq> None"
  using assms unfolding score_map_inv_def by blast+

lemma score_map_inv_keep:
  assumes inv: "score_map_inv mm ps A"
    and cond: "map_of mm (match_movieId x) = None
             \<or> (\<exists>m' s'. map_of A (match_movieId x) = Some (m', s') \<and> vm_score x \<le> s')"
  shows "score_map_inv mm (ps @ [x]) A"
proof (rule score_map_invI)
  show "distinct (map fst A)"
    by (rule score_map_invD(1) [OF inv])
next
  fix k m s assume "map_of A k = Some (m, s)"
  then show "map_of mm k = Some m"
    by (rule score_map_invD(2) [OF inv])
next
  fix k m s assume "map_of A k = Some (m, s)"
  then have "\<exists>x \<in> set ps. match_movieId x = k \<and> vm_score x = s"
    by (rule score_map_invD(3) [OF inv])
  then show "\<exists>x \<in> set (ps @ [x]). match_movieId x = k \<and> vm_score x = s"
    by auto
next
  fix k m s y
  assume e: "map_of A k = Some (m, s)" and y: "y \<in> set (ps @ [x])" and k: "match_movieId y = k"
  show "vm_score y \<le> s"
  proof (cases "y \<in> set ps")
    case True
    then show ?thesis by (rule score_map_invD(4) [OF inv e _ k])
  next
    case False
    then have yx: "y = x" using y by simp
    have "map_of mm k = Some m"
      by (rule score_map_invD(2) [OF inv e])
    then obtain m' s' where "map_of A k = Some (m', s')" "vm_score x \<le> s'"
      using cond k yx by auto
    then show ?thesis using e yx by simp
  qed
next
  fix y assume y: "y \<in> set (ps @ [x])" and r: "map_of mm (match_movieId y) \<noteq> None"
  show "map_of A (match_movieId y) \<noteq> None"
  proof (cases "y \<in> set ps")
    case True
    then show ?thesis using r by (rule score_map_invD(5) [OF inv])
  next
    case False
    then have "y = x" using y by simp
    then show ?thesis using cond r by auto
  qed
qed

lemma score_map_inv_set:
  assumes inv: "score_map_inv mm ps A"
    and movie: "map_of mm (match_movieId x) = Some movie"
    and best: "\<And>y. y \<in> set ps \<Longrightarrow> match_movieId y = match_movieId x \<Longrightarrow> vm_score y \<le> vm_score x"
  shows "score_map_inv mm (ps @ [x]) (obj_set (match_movieId x) (movie, vm_score x) A)"
proof (rule score_map_invI)
  let ?k = "match_movieId x"
  let ?A = "obj_set ?k (movie, vm_score x) A"
  have upd: "map_of ?A j = (if j = ?k then Some (movie, vm_score x) else map_of A j)" for j
    by (simp add: map_of_obj_set)
  show "distinct (map fst ?A)"
    by (rule distinct_obj_set [OF score_map_invD(1) [OF inv]])
  {
    fix k m s assume e: "map_of ?A k = Some (m, s)"
    show "map_of mm k = Some m"
    proof (cases "k = ?k")
      case True
      then show ?thesis using e movie by (simp add: upd)
    next
      case False
      then have "map_of A k = Some (m, s)" using e by (simp add: upd)
      then show ?thesis by (rule score_map_invD(2) [OF inv])
    qed
    show "\<exists>y \<in> set (ps @ [x]). match_movieId y = k \<and> vm_score y = s"
    proof (cases "k = ?k")
      case True
      then show ?thesis using e by (simp add: upd)
    next
      case False
      then have "map_of A k = Some (m, s)" using e by (simp add: upd)
      then have "\<exists>y \<in> set ps. match_movieId y = k \<and> vm_score y = s"
        by (rule score_map_invD(3) [OF inv])
      then show ?thesis by auto
    qed
    fix y assume y: "y \<in> set (ps @ [x])" and k: "match_movieId y = k"
    show "vm_score y \<le> s"
    proof (cases "k = ?k")
      case True
      then have s: "s = vm_score x" using e by (simp add: upd)
      show ?thesis
      proof (cases "y \<in> set ps")
        case True
        then show ?thesis using best [of y] k \<open>k = ?k\<close> s by simp
      next
        case False
        then have "y = x" using y by simp
        then show ?thesis using s by simp
      qed
    next
      case False
      then have old: "map_of A k = Some (m, s)" using e by (simp add: upd)
      have "y \<in> set ps" using y k False by auto
      then show ?thesis by (rule score_map_invD(4) [OF inv old _ k])
    qed
  }
  fix y assume y: "y \<in> set (ps @ [x])" and r: "map_of mm (match_movieId y) \<noteq> None"
  show "map_of ?A (match_movieId y) \<noteq> None"
  proof (cases "match_movieId y = ?k")
    case True
    then show ?thesis by (simp add: upd)
  next
    case False
    then have "y \<in> set ps" using y by auto
    then have "map_of A (match_movieId y) \<noteq> None"
      using r by (rule score_map_invD(5) [OF inv])
    then show ?thesis using False by (simp add: upd)
  qed
qed

lemma merge_fold_invariant:
  "score_map_inv mm ps (fst (foldl (merge_match mm) ([], []) ps))"
proof (induction ps rule: rev_induct)
  case Nil
  show ?case by (simp add: score_map_inv_def)
next
  case (snoc x ps)
  define st where "st = foldl (merge_match mm) ([], []) ps"
  have inv: "score_map_inv mm ps (fst st)"
    using snoc by (simp add: st_def)
  have step: "foldl (merge_match mm) ([], []) (ps @ [x]) = merge_match mm st x"
    by (simp add: st_def)
  show ?case
  proof (cases "map_of mm (match_movieId x)")
    case None
    then have "fst (merge_match mm st x) = fst st"
      by (simp add: merge_match_def)
    then show ?thesis
      unfolding step using score_map_inv_keep [OF inv, of x] None by simp
  next
    case (Some movie)
    show ?thesis
    proof (cases "map_of (fst st) (match_movieId x)")
      case None
      have new: "fst (merge_match mm st x) = obj_set (match_movieId x) (movie, vm_score x) (fst st)"
        using Some None by (simp add: merge_match_def)
      have "vm_score y \<le> vm_score x"
        if "y \<in> set ps" "match_movieId y = match_movieId x" for y
        using score_map_invD(5) [OF inv that(1)] that(2) Some None by simp
      then show ?thesis
        unfolding step new by (rule score_map_inv_set [OF inv Some])
    next
      case existing: (Some e)
      obtain m' s' where e: "map_of (fst st) (match_movieId x) = Some (m', s')"
        using existing by (cases e) simp
      show ?thesis
      proof (cases "vm_score x > s'")
        case True
        have new: "fst (merge_match mm st x) = obj_set (match_movieId x) (movie, vm_score x) (fst st)"
          using Some e True by (simp add: merge_match_def)
        have "vm_score y \<le> vm_score x"
          if "y \<in> set ps" "match_movieId y = match_movieId x" for y
          using score_map_invD(4) [OF inv e that] True by simp
        then show ?thesis
          unfolding step new by (rule score_map_inv_set [OF inv Some])
      next
        case False
        have new: "fst (merge_match mm st x) = fst st"
          using Some e False by (simp add: merge_match_def)
        have "vm_score x \<le> s'" using False by simp
        then show ?thesis
          unfolding step new using score_map_inv_keep [OF inv, of x] e by blast
      qed
    qed
  qed
qed


lemma keys_obj_set_list:
  "map fst (obj_set k v kvs) = (if k \<in> fst ` set kvs then map fst kvs else map fst kvs @ [k])"
  by (induction kvs) (force split: if_splits)+

text \<open>The keys of the score map are the resolved identifiers, in order of first occurrence.\<close>

lemma merge_fold_keys:
  "map fst (fst (foldl (merge_match mm) ([], []) ps))
     = rev (remdups (rev (filter (\<lambda>k. map_of mm k \<noteq> None) (map match_movieId ps))))"
proof (induction ps rule: rev_induct)
  case Nil
  show ?case by simp
next
  case (snoc x ps)
  define st where "st = foldl (merge_match mm) ([], []) ps"
  define ks where "ks = filter (\<lambda>k. map_of mm k \<noteq> None) (map match_movieId ps)"
  have IH: "map fst (fst st) = rev (remdups (rev ks))"
    using snoc by (simp add: st_def ks_def)
  then have keys: "fst ` set (fst st) = set ks"
    by (metis set_map set_remdups set_rev)
  have step: "foldl (merge_match mm) ([], []) (ps @ [x]) = merge_match mm st x"
    by (simp add: st_def)
  show ?case
  proof (cases "map_of mm (match_movieId x)")
    case None
    then have "fst (merge_match mm st x) = fst st"
      by (simp add: merge_match_def)
    then show ?thesis
      unfolding step using IH None by (simp add: ks_def)
  next
    case (Some movie)
    have flt: "filter (\<lambda>k. map_of mm k \<noteq> None) (map match_movieId (ps @ [x]))
        = ks @ [match_movieId x]"
      using Some by (simp add: ks_def)
    show ?thesis
    proof (cases "map_of (fst st) (match_movieId x)")
      case None
      then have new: "match_movieId x \<notin> set ks"
        using keys by (simp add: map_of_eq_None_iff)
      have "fst (merge_match mm st x) = obj_set (match_movieId x) (movie, vm_score x) (fst st)"
        using Some None by (simp add: merge_match_def)
      then show ?thesis
        unfolding step flt using IH new keys by (simp add: keys_obj_set_list)
    next
      case existing: (Some e)
      then have old: "match_movieId x \<in> set ks"
        using keys by (metis map_of_eq_None_iff option.distinct(1))
      have "map fst (fst (merge_match mm st x)) = map fst (fst st)"
        using Some existing old keys
        by (auto simp add: merge_match_def keys_obj_set_list split: prod.splits)
      then show ?thesis
        unfolding step flt using IH old by simp
    qed
  qed
qed

lemma by_id_stored:
  assumes "wf_store ops db" "m \<in> set (documents db)"
  shows "by_id ops db (movie_id ops m) = Some m"
  unfolding by_id_def by (rule find_key_Some [OF wf_store_inj [OF assms(1)] assms(2)])

text \<open>Sorting by descending score and cutting to the limit.\<close>

lemma ranked_set: "set (take n (sort_by_score_desc xs)) \<subseteq> set xs"
  using set_take_subset [of n "sort_by_score_desc xs"] by (simp add: sort_by_score_desc_def)

lemma ranked_sorted: "sorted_wrt (\<lambda>a b. snd a \<ge> snd b) (take n (sort_by_score_desc xs))"
proof -
  have "sorted (map (\<lambda>e. - snd e) (sort_by_score_desc xs))"
    unfolding sort_by_score_desc_def by (rule sorted_sort_key)
  then have "sorted_wrt (\<lambda>a b. snd a \<ge> snd b) (sort_by_score_desc xs)"
    by (simp add: sorted_wrt_map)
  then show ?thesis by (rule sorted_wrt_take)
qed

lemma ranked_distinct:
  assumes "distinct (map f xs)"
  shows "distinct (map f (take n (sort_by_score_desc xs)))"
proof -
  have "mset (map f (sort_by_score_desc xs)) = mset (map f xs)"
    by (simp add: sort_by_score_desc_def)
  then have "distinct (map f (sort_by_score_desc xs)) \<longleftrightarrow> distinct (map f xs)"
    by (rule mset_eq_imp_distinct_iff)
  then have "distinct (map f (sort_by_score_desc xs))"
    using assms by simp
  then show ?thesis
    unfolding take_map [symmetric] by (rule distinct_take)
qed

lemma ranked_length: "length (take n (sort_by_score_desc xs)) = min n (length xs)"
  by (simp add: sort_by_score_desc_def min.commute)

text \<open>The merged entries, for the lookup table of a well-formed store.\<close>

lemma merged_entries:
  fixes ops :: "'oid objectid_ops"
  assumes wf: "wf_store ops db"
  defines "ids \<equiv> \<lambda>raw. filter (\<lambda>s. s \<noteq> []) (map match_movieId raw)"
  defines "mm \<equiv> \<lambda>raw. foldl (index_movie ops) [] (List.map_filter (by_id ops db) (ids raw))"
  defines "entries \<equiv> \<lambda>raw. map snd (fst (foldl (merge_match (mm raw)) ([], []) raw))"
  shows "distinct (map (movie_id ops \<circ> fst) (entries raw))"
    and "(m, s) \<in> set (entries raw) \<Longrightarrow>
           m \<in> set (documents db)
           \<and> (\<exists>x \<in> set raw. match_movieId x = movie_id ops m \<and> vm_score x = s)
           \<and> (\<forall>x \<in> set raw. match_movieId x = movie_id ops m \<longrightarrow> vm_score x \<le> s)"
    and "length (entries raw)
           = card {m \<in> set (documents db). \<exists>x \<in> set raw. match_movieId x = movie_id ops m}"
    and "map (movie_id ops \<circ> fst) (entries raw)
           = rev (remdups (rev (filter (\<lambda>k. \<exists>m \<in> set (documents db). movie_id ops m = k)
                                  (map match_movieId raw))))"
proof -
  define A where "A = fst (foldl (merge_match (mm raw)) ([], []) raw)"
  have inv: "score_map_inv (mm raw) raw A"
    unfolding A_def by (rule merge_fold_invariant)
  have look: "map_of (mm raw) i = (if i \<in> set (ids raw) then by_id ops db i else None)" for i
    unfolding mm_def by (rule movieMap_lookup [OF wf])
  have dA: "distinct (map fst A)"
    by (rule score_map_invD(1) [OF inv])
  have entry: "map_of A k = Some (m, s)" if "(k, m, s) \<in> set A" for k m s
    using dA that by simp
  have stored: "m \<in> set (documents db) \<and> movie_id ops m = k" if "(k, m, s) \<in> set A" for k m s
  proof -
    have "map_of (mm raw) k = Some m"
      by (rule score_map_invD(2) [OF inv entry [OF that]])
    then have "by_id ops db k = Some m"
      by (simp add: look split: if_splits)
    then show ?thesis
      using by_id_Some by fastforce
  qed
  have keys: "map (movie_id ops \<circ> fst) (entries raw) = map fst A"
    unfolding entries_def A_def [symmetric] using stored by (auto simp add: comp_def)
  show "distinct (map (movie_id ops \<circ> fst) (entries raw))"
    using dA by (simp add: keys)
  show "m \<in> set (documents db)
           \<and> (\<exists>x \<in> set raw. match_movieId x = movie_id ops m \<and> vm_score x = s)
           \<and> (\<forall>x \<in> set raw. match_movieId x = movie_id ops m \<longrightarrow> vm_score x \<le> s)"
    if ms: "(m, s) \<in> set (entries raw)"
  proof -
    obtain k where k: "(k, m, s) \<in> set A"
      using ms unfolding entries_def A_def [symmetric] by auto
    have km: "m \<in> set (documents db)" "movie_id ops m = k"
      using stored [OF k] by simp_all
    have "\<exists>x \<in> set raw. match_movieId x = k \<and> vm_score x = s"
      by (rule score_map_invD(3) [OF inv entry [OF k]])
    moreover have "\<forall>x \<in> set raw. match_movieId x = k \<longrightarrow> vm_score x \<le> s"
      using score_map_invD(4) [OF inv entry [OF k]] by blast
    ultimately show ?thesis
      using km by simp
  qed
  let ?R = "{m \<in> set (documents db). \<exists>x \<in> set raw. match_movieId x = movie_id ops m}"
  have "fst ` set A = movie_id ops ` ?R"
  proof (intro set_eqI iffI)
    fix k assume "k \<in> fst ` set A"
    then obtain m s where k: "(k, m, s) \<in> set A" by force
    have "\<exists>x \<in> set raw. match_movieId x = k \<and> vm_score x = s"
      by (rule score_map_invD(3) [OF inv entry [OF k]])
    then show "k \<in> movie_id ops ` ?R"
      using stored [OF k] by auto
  next
    fix k assume "k \<in> movie_id ops ` ?R"
    then obtain m x where m: "m \<in> set (documents db)" "k = movie_id ops m"
      and x: "x \<in> set raw" "match_movieId x = k"
      by auto
    have "k \<noteq> []"
      using wf_store_docs(1) [OF wf m(1)] m(2) by simp
    then have "k \<in> set (ids raw)"
      using x by (auto simp add: ids_def)
    then have "map_of (mm raw) (match_movieId x) = Some m"
      using by_id_stored [OF wf m(1)] m(2) x(2) by (simp add: look)
    then have "map_of A (match_movieId x) \<noteq> None"
      using score_map_invD(5) [OF inv x(1)] by simp
    then show "k \<in> fst ` set A"
      using x(2) by (simp add: map_of_eq_None_iff)
  qed
  moreover have "card (movie_id ops ` ?R) = card ?R"
    by (rule card_image) (rule inj_on_subset [OF wf_store_inj [OF wf]], auto)
  moreover have "length (entries raw) = card (fst ` set A)"
    unfolding entries_def A_def [symmetric] using distinct_card [OF dA] by simp
  ultimately show "length (entries raw) = card ?R"
    by simp
  have "map_of (mm raw) k \<noteq> None \<longleftrightarrow> (\<exists>m \<in> set (documents db). movie_id ops m = k)"
    if "k \<in> set (map match_movieId raw)" for k
  proof
    assume "map_of (mm raw) k \<noteq> None"
    then show "\<exists>m \<in> set (documents db). movie_id ops m = k"
      using by_id_Some [of ops db k] by (auto simp add: look split: if_splits)
  next
    assume "\<exists>m \<in> set (documents db). movie_id ops m = k"
    then obtain m where m: "m \<in> set (documents db)" "movie_id ops m = k"
      by auto
    have "k \<noteq> []"
      using wf_store_docs(1) [OF wf m(1)] m(2) by simp
    then have "k \<in> set (ids raw)"
      using that by (simp add: ids_def)
    then show "map_of (mm raw) k \<noteq> None"
      using by_id_stored [OF wf m(1)] m(2) by (simp add: look)
  qed
  then have "filter (\<lambda>k. map_of (mm raw) k \<noteq> None) (map match_movieId raw)
      = filter (\<lambda>k. \<exists>m \<in> set (documents db). movie_id ops m = k) (map match_movieId raw)"
    by (intro filter_cong refl)
  then show "map (movie_id ops \<circ> fst) (entries raw)
           = rev (remdups (rev (filter (\<lambda>k. \<exists>m \<in> set (documents db). movie_id ops m = k)
                                  (map match_movieId raw))))"
    using merge_fold_keys [of "mm raw" raw] by (simp add: keys A_def)
qed


lemma merge_without_movies: "fst (foldl (merge_match []) st raw) = fst st"
  by (induction raw arbitrary: st) (simp_all add: merge_match_def)

lemma search_world_raw:
  "semanticSearch search_world [0.1] (10 * 2)
     = (Inr (map qdrant_match raw_points),
        [QdrantGetCollection ''movies'', QdrantSearch ''movies'' [0.1] (10 * 2)])"
  by (simp add: semanticSearch_def searchQdrant_def search_world_def world_of_def
      qdrant_client_def plain_object_def isQdrant_def example_env_def Let_def)

lemma search_world_result:
  "fst (searchMoviesByEmbedding search_world hex_ops example_db [0.1] 10)
     = Inr [(movie_of id_a ''Alien'', 0.95), (movie_of id_b ''Brazil'', 0.8)]"
  by (simp add: searchMoviesByEmbedding_def search_world_raw [simplified] Let_def raw_points_def
      qdrant_match_def match_movieId_def or_zero_def or_empty_def getMoviesByIds_def db_find_in_def cast_query_def
      hex_ops_simps example_db_def movie_of_def movie_id_def id_a_def id_b_def is_hex_def
      lower_hex_def index_movie_def js_or_string_def merge_match_def js_slice0_def
      sort_by_score_desc_def show_int_def show_nat.simps)

lemma ranked_top:
  assumes "e \<in> set xs" "e \<notin> set (take n (sort_by_score_desc xs))"
    and "r \<in> set (take n (sort_by_score_desc xs))"
  shows "snd e \<le> snd r"
proof -
  let ?ys = "sort_by_score_desc xs"
  have "sorted (map (\<lambda>e. - snd e) ?ys)"
    unfolding sort_by_score_desc_def by (rule sorted_sort_key)
  then have "sorted_wrt (\<lambda>a b. snd a \<ge> snd b) (take n ?ys @ drop n ?ys)"
    by (simp add: sorted_wrt_map)
  then have cut: "\<forall>a \<in> set (take n ?ys). \<forall>b \<in> set (drop n ?ys). snd b \<le> snd a"
    by (simp only: sorted_wrt_append) blast
  have "e \<in> set (take n ?ys @ drop n ?ys)"
    using assms(1) by (simp add: sort_by_score_desc_def)
  then have "e \<in> set (drop n ?ys)"
    using assms(2) by (simp only: set_append) blast
  then show ?thesis
    using cut assms(3) by blast
qed

text \<open>
  C2. On a well-formed store that answers, with a non-negative limit and raw matches
  \<open>raw\<close> returned by \<open>semanticSearch\<close>, the result of \<open>searchMoviesByEmbedding\<close> is the
  merged entries, sorted by descending score and then cut to the first \<open>limit\<close>. The merged
  entries are one per movie the raw matches resolve to, in the order the movies first
  occur among the raw matches; each is a stored movie paired with the score of one of its
  raw matches that no raw match of the same movie exceeds (the maximum). So in the result
  each movie occurs at most once with its maximum score, the entries are in descending
  order of score, every merged entry left out scores no more than every entry returned,
  and there are at most \<open>limit\<close> entries, exactly the smaller of \<open>limit\<close> and the number
  of resolved movies. The witness cuts two movies to one: the better one, which came
  second among the raw matches, is the one returned.
\<close>

theorem searchMoviesByEmbedding_dedup:
  assumes wf: "wf_store ops db" and up: "db_error db = None" and lim: "0 \<le> limit"
    and raw: "semanticSearch w embedding (limit * 2) = (Inr raw, ev)"
  shows "\<exists>entries rs.
           map (movie_id ops \<circ> fst) entries
             = rev (remdups (rev (filter (\<lambda>k. \<exists>m \<in> set (documents db). movie_id ops m = k)
                                    (map match_movieId raw))))
           \<and> (\<forall>(m, s) \<in> set entries.
                 m \<in> set (documents db)
                 \<and> (\<exists>x \<in> set raw. match_movieId x = movie_id ops m \<and> vm_score x = s)
                 \<and> (\<forall>x \<in> set raw. match_movieId x = movie_id ops m \<longrightarrow> vm_score x \<le> s))
           \<and> rs = take (nat limit) (sort_by_score_desc entries)
           \<and> fst (searchMoviesByEmbedding w ops db embedding limit) = Inr rs
           \<and> (\<forall>e \<in> set entries. \<forall>r \<in> set rs. e \<notin> set rs \<longrightarrow> snd e \<le> snd r)
           \<and> distinct (map (movie_id ops \<circ> fst) rs)
           \<and> (\<forall>(m, s) \<in> set rs.
                 m \<in> set (documents db)
                 \<and> (\<exists>x \<in> set raw. match_movieId x = movie_id ops m \<and> vm_score x = s)
                 \<and> (\<forall>x \<in> set raw. match_movieId x = movie_id ops m \<longrightarrow> vm_score x \<le> s))
           \<and> sorted_wrt (\<lambda>a b. snd a \<ge> snd b) rs
           \<and> length rs \<le> nat limit
           \<and> length rs = min (nat limit)
                (card {m \<in> set (documents db). \<exists>x \<in> set raw. match_movieId x = movie_id ops m})"
proof -
  define ids where "ids = filter (\<lambda>s. s \<noteq> []) (map match_movieId raw)"
  define loaded where "loaded = List.map_filter (by_id ops db) ids"
  define entries where
    "entries = map snd (fst (foldl (merge_match (foldl (index_movie ops) [] loaded)) ([], []) raw))"
  define rs where "rs = take (nat limit) (sort_by_score_desc entries)"
  obtain ev' where loaded: "getMoviesByIds ops db ids = (Inr loaded, ev')"
    using getMoviesByIds_found [OF wf up, of ids] unfolding loaded_def
    by (cases "getMoviesByIds ops db ids") simp
  have res: "fst (searchMoviesByEmbedding w ops db embedding limit) = Inr rs"
  proof (cases "raw = [] \<or> ids = []")
    case True
    then have "loaded = []"
      by (auto simp add: loaded_def ids_def)
    then have "entries = []"
      by (simp add: entries_def merge_without_movies)
    then have "rs = []"
      by (simp add: rs_def sort_by_score_desc_def)
    then show ?thesis
      using True raw by (auto simp add: searchMoviesByEmbedding_def Let_def ids_def)
  next
    case False
    then show ?thesis
      using raw loaded lim
      by (simp add: searchMoviesByEmbedding_def Let_def ids_def [symmetric] js_slice0_def
          rs_def entries_def)
  qed
  note f1 = merged_entries(1) [OF wf, where raw = raw, folded ids_def, folded loaded_def,
      folded entries_def]
  note f2 = merged_entries(2) [OF wf, where raw = raw, folded ids_def, folded loaded_def,
      folded entries_def]
  note f3 = merged_entries(3) [OF wf, where raw = raw, folded ids_def, folded loaded_def,
      folded entries_def]
  note f4 = merged_entries(4) [OF wf, where raw = raw, folded ids_def, folded loaded_def,
      folded entries_def]
  have best: "\<forall>(m, s) \<in> set entries.
        m \<in> set (documents db)
        \<and> (\<exists>x \<in> set raw. match_movieId x = movie_id ops m \<and> vm_score x = s)
        \<and> (\<forall>x \<in> set raw. match_movieId x = movie_id ops m \<longrightarrow> vm_score x \<le> s)"
    using f2 by blast
  have top: "\<forall>e \<in> set entries. \<forall>r \<in> set rs. e \<notin> set rs \<longrightarrow> snd e \<le> snd r"
    unfolding rs_def using ranked_top [of _ entries "nat limit"] by blast
  have d: "distinct (map (movie_id ops \<circ> fst) rs)"
    unfolding rs_def by (rule ranked_distinct [OF f1])
  have best_rs: "\<forall>(m, s) \<in> set rs.
        m \<in> set (documents db)
        \<and> (\<exists>x \<in> set raw. match_movieId x = movie_id ops m \<and> vm_score x = s)
        \<and> (\<forall>x \<in> set raw. match_movieId x = movie_id ops m \<longrightarrow> vm_score x \<le> s)"
    using f2 ranked_set [of "nat limit" entries] unfolding rs_def by blast
  have srt: "sorted_wrt (\<lambda>a b. snd a \<ge> snd b) rs"
    unfolding rs_def by (rule ranked_sorted)
  have len: "length rs = min (nat limit)
      (card {m \<in> set (documents db). \<exists>x \<in> set raw. match_movieId x = movie_id ops m})"
    unfolding rs_def ranked_length f3 ..
  then have len': "length rs \<le> nat limit"
    by simp
  show ?thesis
    apply (rule exI [of _ entries])
    apply (rule exI [of _ rs])
    using f4 best rs_def res top d best_rs srt len' len
    apply (intro conjI)
    apply assumption+
    done
qed

lemma ranked_world_raw:
  "semanticSearch ranked_world [0.1] (1 * 2)
     = (Inr (map qdrant_match ranked_points),
        [QdrantGetCollection ''movies'', QdrantSearch ''movies'' [0.1] (1 * 2)])"
  by (simp add: semanticSearch_def searchQdrant_def ranked_world_def world_of_def
      qdrant_client_def plain_object_def isQdrant_def example_env_def Let_def)

lemma ranked_world_result:
  "fst (searchMoviesByEmbedding ranked_world hex_ops example_db [0.1] 1)
     = Inr [(movie_of id_b ''Brazil'', 0.9)]"
  by (simp add: searchMoviesByEmbedding_def ranked_world_raw [simplified] Let_def
      ranked_points_def qdrant_match_def match_movieId_def or_zero_def or_empty_def
      getMoviesByIds_def db_find_in_def cast_query_def
      hex_ops_simps example_db_def movie_of_def movie_id_def id_a_def id_b_def is_hex_def
      lower_hex_def index_movie_def js_or_string_def merge_match_def js_slice0_def
      sort_by_score_desc_def show_int_def show_nat.simps)

theorem searchMoviesByEmbedding_dedup_witness:
  "(\<exists>entries rs.
           map (movie_id hex_ops \<circ> fst) entries
             = rev (remdups (rev (filter (\<lambda>k. \<exists>m \<in> set (documents example_db).
                                                movie_id hex_ops m = k)
                                    (map match_movieId (map qdrant_match ranked_points)))))
           \<and> (\<forall>(m, s) \<in> set entries.
                 m \<in> set (documents example_db)
                 \<and> (\<exists>x \<in> set (map qdrant_match ranked_points).
                        match_movieId x = movie_id hex_ops m \<and> vm_score x = s)
                 \<and> (\<forall>x \<in> set (map qdrant_match ranked_points).
                        match_movieId x = movie_id hex_ops m \<longrightarrow> vm_score x \<le> s))
           \<and> rs = take (nat 1) (sort_by_score_desc entries)
           \<and> fst (searchMoviesByEmbedding ranked_world hex_ops example_db [0.1] 1) = Inr rs
           \<and> (\<forall>e \<in> set entries. \<forall>r \<in> set rs. e \<notin> set rs \<longrightarrow> snd e \<le> snd r)
           \<and> distinct (map (movie_id hex_ops \<circ> fst) rs)
           \<and> (\<forall>(m, s) \<in> set rs.
                 m \<in> set (documents example_db)
                 \<and> (\<exists>x \<in> set (map qdrant_match ranked_points).
                        match_movieId x = movie_id hex_ops m \<and> vm_score x = s)
                 \<and> (\<forall>x \<in> set (map qdrant_match ranked_points).
                        match_movieId x = movie_id hex_ops m \<longrightarrow> vm_score x \<le> s))
           \<and> sorted_wrt (\<lambda>a b. snd a \<ge> snd b) rs
           \<and> length rs \<le> nat 1
           \<and> length rs = min (nat 1)
                (card {m \<in> set (documents example_db).
                         \<exists>x \<in> set (map qdrant_match ranked_points).
                            match_movieId x = movie_id hex_ops m}))
   \<and> fst (searchMoviesByEmbedding ranked_world hex_ops example_db [0.1] 1)
       = Inr [(movie_of id_b ''Brazil'', 0.9)]
   \<and> fst (searchMoviesByEmbedding search_world hex_ops example_db [0.1] 10)
       = Inr [(movie_of id_a ''Alien'', 0.95), (movie_of id_b ''Brazil'', 0.8)]"
proof (intro conjI)
  show "fst (searchMoviesByEmbedding ranked_world hex_ops example_db [0.1] 1)
       = Inr [(movie_of id_b ''Brazil'', 0.9)]"
    by (rule ranked_world_result)
  show "fst (searchMoviesByEmbedding search_world hex_ops example_db [0.1] 10)
       = Inr [(movie_of id_a ''Alien'', 0.95), (movie_of id_b ''Brazil'', 0.8)]"
    by (rule search_world_result)
  show "\<exists>entries rs.
           map (movie_id hex_ops \<circ> fst) entries
             = rev (remdups (rev (filter (\<lambda>k. \<exists>m \<in> set (documents example_db).
                                                movie_id hex_ops m = k)
                                    (map match_movieId (map qdrant_match ranked_points)))))
           \<and> (\<forall>(m, s) \<in> set entries.
                 m \<in> set (documents example_db)
                 \<and> (\<exists>x \<in> set (map qdrant_match ranked_points).
                        match_movieId x = movie_id hex_ops m \<and> vm_score x = s)
                 \<and> (\<forall>x \<in> set (map qdrant_match ranked_points).
                        match_movieId x = movie_id hex_ops m \<longrightarrow> vm_score x \<le> s))
           \<and> rs = take (nat 1) (sort_by_score_desc entries)
           \<and> fst (searchMoviesByEmbedding ranked_world hex_ops example_db [0.1] 1) = Inr rs
           \<and> (\<forall>e \<in> set entries. \<forall>r \<in> set rs. e \<notin> set rs \<longrightarrow> snd e \<le> snd r)
           \<and> distinct (map (movie_id hex_ops \<circ> fst) rs)
           \<and> (\<forall>(m, s) \<in> set rs.
                 m \<in> set (documents example_db)
                 \<and> (\<exists>x \<in> set (map qdrant_match ranked_points).
                        match_movieId x = movie_id hex_ops m \<and> vm_score x = s)
                 \<and> (\<forall>x \<in> set (map qdrant_match ranked_points).
                        match_movieId x = movie_id hex_ops m \<longrightarrow> vm_score x \<le> s))
           \<and> sorted_wrt (\<lambda>a b. snd a \<ge> snd b) rs
           \<and> length rs \<le> nat 1
           \<and> length rs = min (nat 1)
                (card {m \<in> set (documents example_db).
                         \<exists>x \<in> set (map qdrant_match ranked_points).
                            match_movieId x = movie_id hex_ops m})"
    by (rule searchMoviesByEmbedding_dedup [OF wf_example_db up_example_db _ ranked_world_raw])
       simp
qed

end
